(* ===== verification/Prelude.thy ===== *)
theory Prelude
  imports Main "HOL-Library.Sublist" "HOL-Library.List_Lexorder" "HOL-Library.Char_ord"
begin

text \<open>
  Shared vocabulary of the development: the collections of rules that the component
  theories feed, the Python string built-ins the source calls (\<open>str.join\<close>,
  \<open>str.split\<close>, \<open>str.strip\<close>, \<open>str.rsplit\<close>, slicing with a possibly negative end), and
  generic lemmas on lists and options that the component proofs share.
  Python strings are modelled as \<open>string\<close> (byte lists after UTF-8 encoding); Python
  integers as \<open>int\<close> or \<open>nat\<close>.
\<close>

named_theorems model_simps "evaluation rules of the model's operations"
named_theorems wf_intros "facts showing that an operation keeps a well-formedness invariant"

abbreviation newline :: string where
  "newline \<equiv> [CHR 0x0A]"

section \<open>Python string built-ins\<close>

text \<open>\<open>sep.join(xs)\<close>.\<close>

fun py_join :: "string \<Rightarrow> string list \<Rightarrow> string" where
  "py_join sep [] = []"
| "py_join sep [x] = x"
| "py_join sep (x # y # xs) = x @ sep @ py_join sep (y # xs)"

text \<open>\<open>s.split(c)\<close> for a one-character separator: empty fields are kept, and the
  result is never empty (\<open>''.split(',') == ['']\<close>).\<close>

fun py_split :: "char \<Rightarrow> string \<Rightarrow> string list" where
  "py_split c [] = [[]]"
| "py_split c (x # xs) =
     (if x = c then [] # py_split c xs
      else (let r = py_split c xs in (x # hd r) # tl r))"

text \<open>\<open>str.isspace()\<close> on one byte, and \<open>s.strip()\<close>.\<close>

definition py_isspace :: "char \<Rightarrow> bool" where
  "py_isspace c \<longleftrightarrow>
     (let n = (of_char c :: nat) in c = CHR '' '' \<or> (9 \<le> n \<and> n \<le> 13) \<or> (28 \<le> n \<and> n \<le> 31))"

definition py_strip :: "string \<Rightarrow> string" where
  "py_strip s = rev (dropWhile py_isspace (rev (dropWhile py_isspace s)))"

text \<open>\<open>s[:i]\<close>: a negative end counts from the end of the string.\<close>

definition py_slice_to :: "string \<Rightarrow> int \<Rightarrow> string" where
  "py_slice_to s i =
     (if 0 \<le> i then take (nat i) s else take (nat (int (length s) + i)) s)"

text \<open>\<open>s.rsplit(' ', 1)[0]\<close>: the part before the last space, or all of \<open>s\<close>.\<close>

definition py_rsplit_space_head :: "string \<Rightarrow> string" where
  "py_rsplit_space_head s =
     (if CHR '' '' \<in> set s
      then rev (tl (dropWhile (\<lambda>c. c \<noteq> CHR '' '') (rev s)))
      else s)"

text \<open>\<open>str(n)\<close> for a natural number and for an integer.\<close>

fun py_str_nat :: "nat \<Rightarrow> string" where
  "py_str_nat n =
     (if n < 10 then [char_of (48 + n)] else py_str_nat (n div 10) @ [char_of (48 + n mod 10)])"

definition py_str_int :: "int \<Rightarrow> string" where
  "py_str_int i = (if i < 0 then CHR ''-'' # py_str_nat (nat (- i)) else py_str_nat (nat i))"

text \<open>\<open>repr(s)\<close> of a string: single quotes unless the string holds a single quote
  and no double quote; backslash, the chosen quote, tab, newline and carriage return are
  escaped (other control bytes, which Python prints as \<open>\\xNN\<close>, are kept).\<close>

fun py_escape :: "char \<Rightarrow> string \<Rightarrow> string" where
  "py_escape q [] = []"
| "py_escape q (c # cs) =
     (if c = CHR 0x5C \<or> c = q then [CHR 0x5C, c]
      else if c = CHR 0x0A then [CHR 0x5C, CHR ''n'']
      else if c = CHR 0x09 then [CHR 0x5C, CHR ''t'']
      else if c = CHR 0x0D then [CHR 0x5C, CHR ''r'']
      else [c]) @ py_escape q cs"

definition py_repr_str :: "string \<Rightarrow> string" where
  "py_repr_str s =
     (let q = (if CHR 0x27 \<in> set s \<and> CHR 0x22 \<notin> set s then CHR 0x22 else CHR 0x27)
      in q # py_escape q s @ [q])"

section \<open>Python exceptions\<close>

text \<open>The exceptions that can reach a handler of the program, with the text
  \<open>str(e)\<close> shows: \<open>str(KeyError(k))\<close> is the quoted key.\<close>

datatype exc =
    ValueError string
  | KeyError string
  | IndexError string
  | APIError string
  | ArgumentError string
  | OperationalError string

fun exc_str :: "exc \<Rightarrow> string" where
  "exc_str (ValueError s) = s"
| "exc_str (KeyError k) = py_repr_str k"
| "exc_str (IndexError s) = s"
| "exc_str (APIError s) = s"
| "exc_str (ArgumentError s) = s"
| "exc_str (OperationalError s) = s"

text \<open>\<open>int(s)\<close> for a string: surrounding white space is ignored, one sign is
  allowed, and the digits may be grouped by single underscores (\<open>int('1_000')\<close>);
  anything else raises \<^verbatim>\<open>ValueError\<close>.\<close>

definition py_is_digit :: "char \<Rightarrow> bool" where
  "py_is_digit c \<longleftrightarrow> (let n = (of_char c :: nat) in 48 \<le> n \<and> n \<le> 57)"

definition py_digits_val :: "string \<Rightarrow> nat" where
  "py_digits_val ds = foldl (\<lambda>n c. 10 * n + (of_char c - 48)) 0 ds"

definition py_int :: "string \<Rightarrow> exc + int" where
  "py_int s =
     (let t = py_strip s;
          (sg, ds) = (case t of
                        c # r \<Rightarrow> if c = CHR ''-'' then (-1 :: int, r)
                                 else if c = CHR ''+'' then (1, r) else (1, t)
                      | [] \<Rightarrow> (1, []))
      in if list_all (\<lambda>g. g \<noteq> [] \<and> list_all py_is_digit g) (py_split CHR ''_'' ds)
         then Inr (sg * int (py_digits_val (filter (\<lambda>c. c \<noteq> CHR ''_'') ds)))
         else Inl (ValueError (''invalid literal for int() with base 10: '' @ py_repr_str s)))"

section \<open>Shared lemmas\<close>

lemma py_split_nonempty [simp]: "py_split c s \<noteq> []"
  by (induction s) (auto simp: Let_def)

lemma py_join_split [simp]: "py_join [c] (py_split c s) = s"
proof (induction s)
  case Nil
  then show ?case by simp
next
  case (Cons x xs)
  obtain w ws where r: "py_split c xs = w # ws"
    by (cases "py_split c xs") auto
  show ?case
  proof (cases "x = c")
    case True
    with Cons.IH r show ?thesis by (cases ws) auto
  next
    case False
    with Cons.IH r show ?thesis by (cases ws) auto
  qed
qed

lemma py_join_append_sep:
  "xs \<noteq> [] \<Longrightarrow> py_join sep (xs @ [y]) = py_join sep xs @ sep @ y"
  by (induction sep xs rule: py_join.induct) auto

lemma sublist_py_join: "x \<in> set xs \<Longrightarrow> sublist x (py_join sep xs)"
proof (induction sep xs rule: py_join.induct)
  case (3 sep a b rest)
  show ?case
  proof (cases "x = a")
    case True
    then show ?thesis by simp
  next
    case False
    with "3.prems" have "sublist x (py_join sep (b # rest))"
      by (intro "3.IH") auto
    then show ?thesis
      by (metis append.assoc sublist_append_leftI sublist_order.order_trans py_join.simps(3))
  qed
qed auto

lemma length_py_slice_to_le: "length (py_slice_to s i) \<le> length s"
  by (simp add: py_slice_to_def) linarith

lemma length_py_slice_to_nonneg:
  "0 \<le> i \<Longrightarrow> length (py_slice_to s i) = min (nat i) (length s)"
  by (simp add: py_slice_to_def)

lemma length_py_rsplit_space_head_le:
  "length (py_rsplit_space_head s) \<le> length s"
proof -
  have "length (dropWhile (\<lambda>c. c \<noteq> CHR '' '') (rev s)) \<le> length (rev s)"
    by (rule length_dropWhile_le)
  then show ?thesis
    by (simp add: py_rsplit_space_head_def) linarith
qed

lemma last_list_update_last [simp]:
  "xs \<noteq> [] \<Longrightarrow> xs[length xs - Suc 0 := y] = butlast xs @ [y]"
  by (induction xs) (auto split: nat.split)

lemma takeWhile_append_stop:
  "\<forall>x\<in>set xs. P x \<Longrightarrow> \<not> P y \<Longrightarrow> takeWhile P (xs @ y # ys) = xs"
  by (simp add: takeWhile_append2)

lemma option_case_Some_eq [simp]:
  "(case x of None \<Rightarrow> None | Some y \<Rightarrow> Some y) = x"
  by (cases x) auto

end
