(* ===== verification/Messages.thy ===== *)
theory Messages
  imports Prelude
begin

text \<open>
  The conversation state of the agent (\<^verbatim>\<open>MessagesState\<close> in src/app.py): LangChain
  messages with their tool calls, and LangGraph's \<^verbatim>\<open>add_messages\<close> reducer through
  which every node's output enters the state. The reducer is library code (not under
  src/); it is modelled from its documented behaviour: messages without an id get a fresh
  one, a message whose id is already in the log replaces that entry in place, every
  other message is appended. Ids are natural numbers drawn from a counter that stands
  for \<^verbatim>\<open>uuid4()\<close>; the counter is threaded through explicitly.
\<close>

section \<open>Messages and tool calls\<close>

text \<open>A tool call \<^verbatim>\<open>{"name": ..., "args": {...}, "id": ...}\<close>; the arguments
  are a JSON object with string values, kept as an association list.\<close>

record tool_call =
  tc_name :: string
  tc_args :: "(string \<times> string) list"
  tc_id :: string

text \<open>The four message classes the program uses. Each carries its optional id; an
  \<^verbatim>\<open>AIMessage\<close> carries its tool calls, a \<^verbatim>\<open>ToolMessage\<close> the id of the call it
  answers.\<close>

datatype message =
    SystemMessage "nat option" string
  | HumanMessage "nat option" string
  | AIMessage "nat option" string "tool_call list"
  | ToolMessage "nat option" string string

fun msg_id :: "message \<Rightarrow> nat option" where
  "msg_id (SystemMessage i _) = i"
| "msg_id (HumanMessage i _) = i"
| "msg_id (AIMessage i _ _) = i"
| "msg_id (ToolMessage i _ _) = i"

fun msg_content :: "message \<Rightarrow> string" where
  "msg_content (SystemMessage _ c) = c"
| "msg_content (HumanMessage _ c) = c"
| "msg_content (AIMessage _ c _) = c"
| "msg_content (ToolMessage _ c _) = c"

text \<open>\<open>m.id = i\<close> (an assignment to the message object).\<close>

fun with_id :: "nat option \<Rightarrow> message \<Rightarrow> message" where
  "with_id i (SystemMessage _ c) = SystemMessage i c"
| "with_id i (HumanMessage _ c) = HumanMessage i c"
| "with_id i (AIMessage _ c tcs) = AIMessage i c tcs"
| "with_id i (ToolMessage _ c t) = ToolMessage i c t"

text \<open>\<open>getattr(m, "tool_calls", [])\<close>: only AI messages have the attribute. The guard
  \<open>hasattr(m, 'tool_calls') and m.tool_calls\<close> of src/app.py is \<open>tool_calls_of m \<noteq> []\<close>.\<close>

fun tool_calls_of :: "message \<Rightarrow> tool_call list" where
  "tool_calls_of (AIMessage _ _ tcs) = tcs"
| "tool_calls_of _ = []"

fun is_ai :: "message \<Rightarrow> bool" where
  "is_ai (AIMessage _ _ _) = True"
| "is_ai _ = False"

section \<open>The add_messages reducer\<close>

text \<open>Giving every message without an id a fresh one, left to right.\<close>

fun assign_ids :: "nat \<Rightarrow> message list \<Rightarrow> message list \<times> nat" where
  "assign_ids k [] = ([], k)"
| "assign_ids k (m # ms) =
     (case msg_id m of
        None \<Rightarrow> (let (ms', k') = assign_ids (Suc k) ms in (with_id (Some k) m # ms', k'))
      | Some _ \<Rightarrow> (let (ms', k') = assign_ids k ms in (m # ms', k')))"

text \<open>\<open>left_idx_by_id = {m.id: i for i, m in enumerate(left)}\<close>: a later position
  overwrites an earlier one with the same id.\<close>

fun idx_from :: "nat \<Rightarrow> message list \<Rightarrow> nat \<Rightarrow> nat option" where
  "idx_from j [] i = None"
| "idx_from j (m # ms) i =
     (case idx_from (Suc j) ms i of
        Some r \<Rightarrow> Some r
      | None \<Rightarrow> (if msg_id m = Some i then Some j else None))"

definition idx_of_id :: "message list \<Rightarrow> nat \<Rightarrow> nat option" where
  "idx_of_id ms i = idx_from 0 ms i"

text \<open>The merge loop: replace in place when the id is known in \<open>left\<close>, else append.\<close>

fun merge_msgs :: "message list \<Rightarrow> message list \<Rightarrow> message list \<Rightarrow> message list" where
  "merge_msgs left merged [] = merged"
| "merge_msgs left merged (m # ms) =
     merge_msgs left
       (case msg_id m of
          Some i \<Rightarrow> (case idx_of_id left i of
                       Some j \<Rightarrow> merged[j := m]
                     | None \<Rightarrow> merged @ [m])
        | None \<Rightarrow> merged @ [m]) ms"

definition add_messages :: "message list \<Rightarrow> message list \<Rightarrow> nat \<Rightarrow> message list \<times> nat" where
  "add_messages left right k =
     (let (left', k1) = assign_ids k left;
          (right', k2) = assign_ids k1 right
      in (merge_msgs left' left' right', k2))"

text \<open>The ids the reducer gives to a list of id-less messages, from counter \<open>k\<close>.\<close>

fun fresh_ids :: "nat \<Rightarrow> message list \<Rightarrow> message list" where
  "fresh_ids k [] = []"
| "fresh_ids k (m # ms) = with_id (Some k) m # fresh_ids (Suc k) ms"

text \<open>Well-formed log: every message has an id below the counter, and ids are
  distinct. This is what makes replacement by id hit exactly one message.\<close>

definition ids_wf :: "nat \<Rightarrow> message list \<Rightarrow> bool" where
  "ids_wf k ms \<longleftrightarrow> (\<forall>m\<in>set ms. \<exists>i. msg_id m = Some i \<and> i < k) \<and> distinct (map msg_id ms)"

section \<open>Reducer lemmas\<close>

lemma msg_id_with_id [simp]: "msg_id (with_id i m) = i"
  by (cases m) auto

lemma tool_calls_of_with_id [simp]: "tool_calls_of (with_id i m) = tool_calls_of m"
  by (cases m) auto

lemma msg_content_with_id [simp]: "msg_content (with_id i m) = msg_content m"
  by (cases m) auto

lemma assign_ids_all_some:
  "\<forall>m\<in>set ms. msg_id m \<noteq> None \<Longrightarrow> assign_ids k ms = (ms, k)"
  by (induction k ms rule: assign_ids.induct) (auto split: option.splits)

lemma assign_ids_all_none:
  "\<forall>m\<in>set ms. msg_id m = None \<Longrightarrow> assign_ids k ms = (fresh_ids k ms, k + length ms)"
  by (induction ms arbitrary: k) auto

lemma idx_from_snoc:
  "msg_id m = Some i \<Longrightarrow> idx_from j (ms @ [m]) i = Some (j + length ms)"
  by (induction ms arbitrary: j) auto

lemma idx_from_notin:
  "Some i \<notin> msg_id ` set ms \<Longrightarrow> idx_from j ms i = None"
  by (induction ms arbitrary: j) auto

lemma merge_msgs_append:
  "\<forall>m\<in>set ms. \<forall>i. msg_id m = Some i \<longrightarrow> idx_of_id left i = None \<Longrightarrow>
   merge_msgs left acc ms = acc @ ms"
  by (induction left acc ms rule: merge_msgs.induct) (auto split: option.splits)

lemma ids_wf_all_some: "ids_wf k ms \<Longrightarrow> \<forall>m\<in>set ms. msg_id m \<noteq> None"
  by (auto simp: ids_wf_def)

lemma fresh_ids_set_ids:
  "m \<in> set (fresh_ids k ms) \<Longrightarrow> \<exists>i. msg_id m = Some i \<and> k \<le> i \<and> i < k + length ms"
  by (induction ms arbitrary: k) fastforce+

lemma distinct_fresh_ids: "distinct (map msg_id (fresh_ids k ms))"
  by (induction ms arbitrary: k) (fastforce dest: fresh_ids_set_ids)+

lemma length_fresh_ids [simp]: "length (fresh_ids k ms) = length ms"
  by (induction ms arbitrary: k) auto

lemma add_messages_append_fresh:
  assumes wf: "ids_wf k left" and none: "\<forall>m\<in>set right. msg_id m = None"
  shows "add_messages left right k = (left @ fresh_ids k right, k + length right)"
proof -
  have l: "assign_ids k left = (left, k)"
    using wf by (intro assign_ids_all_some) (auto simp: ids_wf_def)
  have r: "assign_ids k right = (fresh_ids k right, k + length right)"
    using none by (rule assign_ids_all_none)
  have "\<forall>m\<in>set (fresh_ids k right). \<forall>i. msg_id m = Some i \<longrightarrow> idx_of_id left i = None"
  proof (intro ballI allI impI)
    fix m i
    assume "m \<in> set (fresh_ids k right)" "msg_id m = Some i"
    then have "k \<le> i" using fresh_ids_set_ids by fastforce
    with wf have "Some i \<notin> msg_id ` set left" by (force simp: ids_wf_def)
    then show "idx_of_id left i = None" by (simp add: idx_of_id_def idx_from_notin)
  qed
  then show ?thesis
    by (simp add: add_messages_def l r merge_msgs_append)
qed

lemma ids_wf_append_fresh:
  "ids_wf k left \<Longrightarrow> ids_wf (k + length right) (left @ fresh_ids k right)"
proof -
  assume wf: "ids_wf k left"
  have d: "distinct (map msg_id (fresh_ids k right))"
    by (rule distinct_fresh_ids)
  have disj: "set (map msg_id left) \<inter> set (map msg_id (fresh_ids k right)) = {}"
    using wf by (fastforce simp: ids_wf_def dest: fresh_ids_set_ids)
  show ?thesis
    using wf d disj fresh_ids_set_ids by (fastforce simp: ids_wf_def)
qed

lemma add_messages_replace_last:
  assumes wf: "ids_wf k left" and ne: "left \<noteq> []" and eq: "msg_id m = msg_id (last left)"
  shows "add_messages left [m] k = (butlast left @ [m], k)"
proof -
  obtain i where i: "msg_id (last left) = Some i"
    using wf ne last_in_set by (fastforce simp: ids_wf_def)
  have l: "assign_ids k left = (left, k)"
    using wf by (intro assign_ids_all_some) (auto simp: ids_wf_def)
  have r: "assign_ids k [m] = ([m], k)"
    using eq i by simp
  have split: "left = butlast left @ [last left]"
    using ne by simp
  have "idx_of_id left i = Some (length left - 1)"
    using idx_from_snoc[OF i, of 0 "butlast left"] split
    by (simp add: idx_of_id_def)
  then show ?thesis
    using eq i ne by (simp add: add_messages_def l r)
qed

lemma ids_wf_replace_last:
  "ids_wf k left \<Longrightarrow> left \<noteq> [] \<Longrightarrow> msg_id m = msg_id (last left) \<Longrightarrow>
   ids_wf k (butlast left @ [m])"
proof -
  assume wf: "ids_wf k left" and ne: "left \<noteq> []" and eq: "msg_id m = msg_id (last left)"
  have split: "left = butlast left @ [last left]" using ne by simp
  have "map msg_id (butlast left @ [m]) = map msg_id left"
    using eq by (subst (2) split) simp
  moreover have "\<forall>x\<in>set (butlast left @ [m]). \<exists>i. msg_id x = Some i \<and> i < k"
    using wf eq ne by (auto simp: ids_wf_def dest: in_set_butlastD)
  ultimately show ?thesis
    using wf by (simp add: ids_wf_def)
qed

lemma last_append_fresh_ids:
  "ws \<noteq> [] \<Longrightarrow> last (ms @ fresh_ids k ws) = with_id (Some (k + length ws - 1)) (last ws)"
proof (induction ws arbitrary: k ms)
  case (Cons w ws)
  then show ?case by (cases ws) auto
qed simp

lemma with_id_same: "msg_id m = i \<Longrightarrow> with_id i m = m"
  by (cases m) auto

lemma with_id_with_id [simp]: "with_id i (with_id j m) = with_id i m"
  by (cases m) auto

lemma strip_fresh_ids: "map (with_id None) (fresh_ids k ms) = map (with_id None) ms"
  by (induction ms arbitrary: k) auto

text \<open>C8. The reducer appends messages that have no id after the existing log,
  unchanged but for fresh ids: the result is the old log followed by the new messages,
  the counter advances by their number, and the log stays well-formed (distinct ids
  below the counter).\<close>

theorem add_messages_appends:
  assumes "ids_wf k left" and "\<forall>m\<in>set right. msg_id m = None"
  shows "\<exists>new. add_messages left right k = (left @ new, k + length right)
              \<and> ids_wf (k + length right) (left @ new) \<and> map (with_id None) new = right"
proof -
  have "map (with_id None) right = right"
    using assms(2) by (simp add: with_id_same map_idI)
  then have "map (with_id None) (fresh_ids k right) = right"
    by (simp add: strip_fresh_ids)
  with assms show ?thesis
    by (blast intro: add_messages_append_fresh ids_wf_append_fresh)
qed

theorem add_messages_appends_witness:
  "ids_wf 1 [HumanMessage (Some 0) ''q''] \<and> msg_id (AIMessage None ''a'' []) = None
   \<and> add_messages [HumanMessage (Some 0) ''q''] [AIMessage None ''a'' []] 1
       = ([HumanMessage (Some 0) ''q'', AIMessage (Some 1) ''a'' []], 2)"
proof -
  have h1: "ids_wf 1 [HumanMessage (Some 0) ''q'']" by (simp add: ids_wf_def)
  have h2: "\<forall>m\<in>set [AIMessage None ''a'' []]. msg_id m = None" by simp
  from add_messages_appends [OF h1 h2] obtain new where
    "add_messages [HumanMessage (Some 0) ''q''] [AIMessage None ''a'' []] 1
       = ([HumanMessage (Some 0) ''q''] @ new, 2)" by auto
  moreover have "add_messages [HumanMessage (Some 0) ''q''] [AIMessage None ''a'' []] 1
       = ([HumanMessage (Some 0) ''q'', AIMessage (Some 1) ''a'' []], 2)"
    by (simp add: add_messages_def idx_of_id_def)
  ultimately show ?thesis using h1 h2 by simp
qed

end
