(* ===== verification/SqlTools.thy ===== *)
theory SqlTools
  imports Messages "HOL-Library.Multiset"
begin

text \<open>
  The database side of the agent: LangChain's \<^verbatim>\<open>SQLDatabase\<close> wrapper, the three
  tools of \<^verbatim>\<open>SQLDatabaseToolkit\<close> that src/app.py selects by name
  (\<^verbatim>\<open>sql_db_list_tables\<close>, \<^verbatim>\<open>sql_db_schema\<close>, \<^verbatim>\<open>sql_db_query\<close>, lines 94-107),
  and LangGraph's \<^verbatim>\<open>ToolNode\<close> that runs the tool calls of the last AI message (the
  graph nodes \<^verbatim>\<open>get_schema\<close> and \<^verbatim>\<open>run_query\<close>). All of this is library code, not
  under src/, and is modelled from its documented behaviour.
  The database is a record of operations over an abstract store \<open>'d\<close>: the table
  names and per-table descriptions reflected when the agent is built, and statement
  execution inside \<^verbatim>\<open>engine.begin()\<close>, which commits on success and rolls back (store
  unchanged) on a \<^verbatim>\<open>SQLAlchemyError\<close>.
\<close>

section \<open>The database collaborator\<close>

datatype sqlval = SqlNull | SqlInt int | SqlStr string

type_synonym row = "sqlval list"

record 'd database =
  dialect :: string
  usable_tables :: "string list"
  table_ddl :: "string \<Rightarrow> string"
  db_execute :: "'d \<Rightarrow> string \<Rightarrow> string + (row list \<times> 'd)"

section \<open>SQLDatabase.run and run_no_throw\<close>

text \<open>\<^verbatim>\<open>truncate_word(content, length=n, suffix="...")\<close>: strings longer than \<open>n\<close>
  are cut to \<open>content[:n - 3]\<close>, back to the last space, and \<open>...\<close> is appended. A
  negative slice end (\<open>n < 3\<close>) counts from the end of the string.\<close>

definition truncate_word :: "string \<Rightarrow> int \<Rightarrow> string" where
  "truncate_word content n =
     (if n \<le> 0 then content
      else if int (length content) \<le> n then content
      else py_rsplit_space_head (py_slice_to content (n - 3)) @ ''...'')"

fun truncate_val :: "int \<Rightarrow> sqlval \<Rightarrow> sqlval" where
  "truncate_val n (SqlStr s) = SqlStr (truncate_word s n)"
| "truncate_val n v = v"

text \<open>\<^verbatim>\<open>max_string_length\<close> of \<^verbatim>\<open>SQLDatabase\<close>.\<close>

definition max_string_length :: int where
  "max_string_length = 300"

fun repr_val :: "sqlval \<Rightarrow> string" where
  "repr_val SqlNull = ''None''"
| "repr_val (SqlInt i) = py_str_int i"
| "repr_val (SqlStr s) = py_repr_str s"

text \<open>\<open>repr\<close> of a tuple (a one-element tuple prints a trailing comma) and of the
  list of tuples that \<^verbatim>\<open>str(res)\<close> prints.\<close>

definition repr_row :: "row \<Rightarrow> string" where
  "repr_row r =
     CHR ''('' # py_join '', '' (map repr_val r) @ (if length r = 1 then '',)'' else '')'')"

definition repr_rows :: "row list \<Rightarrow> string" where
  "repr_rows rs = CHR ''['' # py_join '', '' (map repr_row rs) @ '']''"

text \<open>\<^verbatim>\<open>run\<close>: execute, truncate every string value, and print the rows; no rows
  print as the empty string.\<close>

definition run :: "'d database \<Rightarrow> 'd \<Rightarrow> string \<Rightarrow> string + (string \<times> 'd)" where
  "run db d command =
     (case db_execute db d command of
        Inl e \<Rightarrow> Inl e
      | Inr (rows, d') \<Rightarrow>
          (let res = map (map (truncate_val max_string_length)) rows
           in Inr (if res = [] then '''' else repr_rows res, d')))"

definition run_no_throw :: "'d database \<Rightarrow> 'd \<Rightarrow> string \<Rightarrow> string \<times> 'd" where
  "run_no_throw db d command =
     (case run db d command of
        Inl e \<Rightarrow> (''Error: '' @ e, d)
      | Inr (s, d') \<Rightarrow> (s, d'))"

section \<open>SQLDatabase.get_table_info and get_table_info_no_throw\<close>

text \<open>Requested names unknown to the database raise \<^verbatim>\<open>ValueError\<close> for the whole call;
  otherwise the blocks of the requested tables, taken from the reflected tables, are
  sorted and joined by blank lines. The set of missing names is printed in request
  order (Python prints it in hash order).\<close>

definition get_table_info :: "'d database \<Rightarrow> string list \<Rightarrow> exc + string" where
  "get_table_info db table_names =
     (let missing = remdups (filter (\<lambda>t. t \<notin> set (usable_tables db)) table_names)
      in if missing \<noteq> []
         then Inl (ValueError (''table_names {'' @ py_join '', '' (map py_repr_str missing)
                               @ ''} not found in database''))
         else Inr (py_join (newline @ newline)
                     (sort (map (table_ddl db)
                              (filter (\<lambda>t. t \<in> set table_names) (usable_tables db))))))"

definition get_table_info_no_throw :: "'d database \<Rightarrow> string list \<Rightarrow> string" where
  "get_table_info_no_throw db table_names =
     (case get_table_info db table_names of
        Inl e \<Rightarrow> ''Error: '' @ exc_str e
      | Inr s \<Rightarrow> s)"

section \<open>The three tools\<close>

datatype sql_tool = ListTablesTool | SchemaTool | QueryTool

fun tool_name :: "sql_tool \<Rightarrow> string" where
  "tool_name ListTablesTool = ''sql_db_list_tables''"
| "tool_name SchemaTool = ''sql_db_schema''"
| "tool_name QueryTool = ''sql_db_query''"

text \<open>\<^verbatim>\<open>ListSQLDatabaseTool._run\<close>: the usable table names joined by commas.\<close>

definition list_tables_text :: "'d database \<Rightarrow> string" where
  "list_tables_text db = py_join '', '' (usable_tables db)"

text \<open>Invoking a tool with the argument object of a call. A missing required
  argument is a validation error (\<open>Inl\<close>, the text of the error); otherwise the tool's
  output and the store after it. \<^verbatim>\<open>InfoSQLDatabaseTool\<close> splits its argument on
  commas and strips each name.\<close>

fun tool_invoke ::
  "'d database \<Rightarrow> 'd \<Rightarrow> sql_tool \<Rightarrow> (string \<times> string) list \<Rightarrow> string + (string \<times> 'd)" where
  "tool_invoke db d ListTablesTool args = Inr (list_tables_text db, d)"
| "tool_invoke db d SchemaTool args =
     (case map_of args ''table_names'' of
        None \<Rightarrow> Inl ''table_names: field required''
      | Some tn \<Rightarrow> Inr (get_table_info_no_throw db (map py_strip (py_split (CHR '','') tn)), d))"
| "tool_invoke db d QueryTool args =
     (case map_of args ''query'' of
        None \<Rightarrow> Inl ''query: field required''
      | Some q \<Rightarrow> Inr (run_no_throw db d q))"

section \<open>ToolNode\<close>

text \<open>One call: an unknown tool name and an argument error become error tool messages
  (\<^verbatim>\<open>handle_tool_errors\<close>); otherwise the tool's output. Every tool message answers
  its call by the call's id and has no message id of its own.\<close>

definition run_tool_call ::
  "'d database \<Rightarrow> sql_tool list \<Rightarrow> 'd \<Rightarrow> tool_call \<Rightarrow> message \<times> 'd" where
  "run_tool_call db tools d tc =
     (case find (\<lambda>t. tool_name t = tc_name tc) tools of
        None \<Rightarrow> (ToolMessage None (''Error: '' @ tc_name tc @ '' is not a valid tool, try one of [''
                   @ py_join '', '' (map tool_name tools) @ ''].'') (tc_id tc), d)
      | Some t \<Rightarrow>
          (case tool_invoke db d t (tc_args tc) of
             Inl err \<Rightarrow> (ToolMessage None (''Error: '' @ err @ newline @ '' Please fix your mistakes.'')
                          (tc_id tc), d)
           | Inr (out, d') \<Rightarrow> (ToolMessage None out (tc_id tc), d')))"

text \<open>The calls of one message are run in order, each on the store the previous one
  left (LangGraph runs them on a thread pool and keeps the order of the results).\<close>

fun run_tool_calls ::
  "'d database \<Rightarrow> sql_tool list \<Rightarrow> 'd \<Rightarrow> tool_call list \<Rightarrow> message list \<times> 'd" where
  "run_tool_calls db tools d [] = ([], d)"
| "run_tool_calls db tools d (tc # tcs) =
     (let (m, d1) = run_tool_call db tools d tc;
          (ms, d2) = run_tool_calls db tools d1 tcs
      in (m # ms, d2))"

text \<open>\<^verbatim>\<open>ToolNode.invoke\<close> on the state: the last message must be an AI message.\<close>

definition tool_node ::
  "'d database \<Rightarrow> sql_tool list \<Rightarrow> 'd \<Rightarrow> message list \<Rightarrow> exc + (message list \<times> 'd)" where
  "tool_node db tools d msgs =
     (if msgs = [] then Inl (ValueError ''No message found in input'')
      else (case last msgs of
              AIMessage _ _ tcs \<Rightarrow> Inr (run_tool_calls db tools d tcs)
            | _ \<Rightarrow> Inl (ValueError ''Last message is not an AIMessage'')))"

fun tool_call_id_of :: "message \<Rightarrow> string option" where
  "tool_call_id_of (ToolMessage _ _ t) = Some t"
| "tool_call_id_of _ = None"

text \<open>Well-formedness of the message log as the chat API types it: every tool message
  answers a tool call that an earlier AI message of the log made.\<close>

fun calls_answered :: "string list \<Rightarrow> message list \<Rightarrow> bool" where
  "calls_answered seen [] = True"
| "calls_answered seen (m # ms) =
     ((case tool_call_id_of m of Some t \<Rightarrow> t \<in> set seen | None \<Rightarrow> True)
      \<and> calls_answered (seen @ map tc_id (tool_calls_of m)) ms)"

definition call_ids :: "message list \<Rightarrow> string list" where
  "call_ids ms = concat (map (\<lambda>m. map tc_id (tool_calls_of m)) ms)"

definition log_wf :: "message list \<Rightarrow> bool" where
  "log_wf ms \<longleftrightarrow> calls_answered [] ms"

section \<open>An example database\<close>

text \<open>A store that is the list of existing tables, with two usable tables, for the
  witnesses of the lemmas below and of the scenarios of the root theory.\<close>

definition example_execute :: "string list \<Rightarrow> string \<Rightarrow> string + (row list \<times> string list)" where
  "example_execute d q =
     (if q = ''DROP TABLE customers''
      then (if ''customers'' \<in> set d then Inr ([], removeAll ''customers'' d)
            else Inl ''table customers does not exist'')
      else if q = ''SELECT name FROM customers''
      then Inr ([[SqlStr ''Ada'']], d)
      else if q = ''SELECT id FROM invoices LIMIT 1000''
      then Inr (map (\<lambda>i. [SqlInt i]) [1..7], d)
      else Inl ''syntax error at or near SELEC'')"

definition example_db :: "string list database" where
  "example_db =
     \<lparr>dialect = ''postgresql'', usable_tables = [''customers'', ''invoices''],
      table_ddl = (\<lambda>t. ''CREATE TABLE '' @ t @ '' (id INTEGER)''),
      db_execute = example_execute\<rparr>"

section \<open>Lemmas\<close>

text \<open>C11. \<^verbatim>\<open>truncate_word\<close> keeps the result within the length limit, suffix
  included, for every limit of at least the suffix's three characters; the
  \<^verbatim>\<open>max_string_length\<close> of 300 used on query results is such a limit.\<close>

theorem truncate_word_length_bound:
  assumes "3 \<le> n"
  shows "length (truncate_word s n) \<le> nat n"
proof (cases "int (length s) \<le> n")
  case True
  with assms show ?thesis by (simp add: truncate_word_def)
next
  case False
  have "length (py_rsplit_space_head (py_slice_to s (n - 3))) \<le> length (py_slice_to s (n - 3))"
    by (rule length_py_rsplit_space_head_le)
  also have "\<dots> \<le> nat (n - 3)"
    using assms by (simp add: length_py_slice_to_nonneg)
  finally show ?thesis
    using assms False by (simp add: truncate_word_def)
qed

theorem truncate_word_length_bound_witness:
  "3 \<le> (5::int) \<and> length (truncate_word ''hello world'' 5) \<le> nat 5 \<and> truncate_word ''hello world'' 5 = ''he...''"
  using truncate_word_length_bound [of 5 "''hello world''"]
  by (simp add: truncate_word_def py_slice_to_def py_rsplit_space_head_def)

lemma truncate_word_short_limit_overflows:
  "truncate_word ''abcdef'' 1 = ''abcd...''"
  by (simp add: truncate_word_def py_slice_to_def py_rsplit_space_head_def)

lemma run_no_throw_all_rows:
  assumes "db_execute db d q = Inr (rows, d')" and "rows \<noteq> []"
  shows "run_no_throw db d q = (repr_rows (map (map (truncate_val max_string_length)) rows), d')"
  using assms by (simp add: run_no_throw_def run_def)

lemma run_no_throw_error:
  "db_execute db d q = Inl e \<Longrightarrow> run_no_throw db d q = (''Error: '' @ e, d)"
  by (simp add: run_no_throw_def run_def)

text \<open>C9. If any requested table name is unknown, \<^verbatim>\<open>get_table_info_no_throw\<close> returns
  only an error text naming the missing tables: the descriptions of the requested tables
  that do exist are not returned either (no best-effort result per table).\<close>

theorem get_table_info_missing:
  assumes "t \<in> set req" and "t \<notin> set (usable_tables db)"
  shows "\<exists>msg. get_table_info_no_throw db req = ''Error: table_names {'' @ msg @ ''} not found in database''"
proof -
  have "remdups (filter (\<lambda>t. t \<notin> set (usable_tables db)) req) \<noteq> []"
    using assms by (auto simp: filter_empty_conv)
  then show ?thesis
    by (simp add: get_table_info_no_throw_def get_table_info_def Let_def)
qed

lemma mset_filter_requested:
  assumes "set req \<subseteq> set us" and "distinct us"
  shows "mset (filter (\<lambda>t. t \<in> set req) us) = mset (remdups req)"
proof -
  have s: "set (filter (\<lambda>t. t \<in> set req) us) = set (remdups req)"
    using assms(1) by auto
  have d: "distinct (filter (\<lambda>t. t \<in> set req) us)"
    using assms(2) by simp
  show ?thesis
    using set_eq_iff_mset_eq_distinct [OF d distinct_remdups] s by blast
qed

lemma get_table_info_blocks:
  assumes "set req \<subseteq> set (usable_tables db)" and "distinct (usable_tables db)"
  shows "\<exists>bs. get_table_info db req = Inr (py_join (newline @ newline) bs)
              \<and> mset bs = mset (map (table_ddl db) (remdups req))"
proof -
  have none: "remdups (filter (\<lambda>t. t \<notin> set (usable_tables db)) req) = []"
    using assms(1) by (auto simp: filter_empty_conv)
  let ?bs = "sort (map (table_ddl db) (filter (\<lambda>t. t \<in> set req) (usable_tables db)))"
  have m: "mset ?bs = mset (map (table_ddl db) (remdups req))"
    by (simp only: mset_sort mset_map mset_filter_requested [OF assms])
  have "get_table_info db req = Inr (py_join (newline @ newline) ?bs)"
    using none by (simp add: get_table_info_def Let_def)
  with m show ?thesis by blast
qed

lemma tool_call_id_not_ai: "tool_call_id_of m = Some t \<Longrightarrow> \<not> is_ai m"
  by (cases m) auto

lemma run_tool_calls_ids:
  "run_tool_calls db tools d tcs = (out, d') \<Longrightarrow>
   map tool_call_id_of out = map (\<lambda>tc. Some (tc_id tc)) tcs \<and> (\<forall>m\<in>set out. msg_id m = None)"
proof (induction tcs arbitrary: d out d')
  case Nil
  then show ?case by simp
next
  case (Cons tc tcs)
  obtain m d1 where m: "run_tool_call db tools d tc = (m, d1)" by fastforce
  obtain ms d2 where ms: "run_tool_calls db tools d1 tcs = (ms, d2)" by fastforce
  have "tool_call_id_of m = Some (tc_id tc) \<and> msg_id m = None"
    using m by (auto simp: run_tool_call_def split: option.splits sum.splits)
  with Cons.prems Cons.IH [OF ms] m ms show ?case by auto
qed

text \<open>C7. A tool node answers the tool calls of the last AI message one by one, in
  order: the i-th tool message carries the id of the i-th call, and no tool message has
  a message id of its own (the reducer appends them with fresh ids).\<close>

theorem tool_node_correlation:
  assumes "tool_node db tools d msgs = Inr (out, d')"
  shows "map tool_call_id_of out = map (\<lambda>tc. Some (tc_id tc)) (tool_calls_of (last msgs))
         \<and> (\<forall>m\<in>set out. msg_id m = None)"
proof -
  have ne: "msgs \<noteq> []"
    using assms by (auto simp: tool_node_def split: if_splits)
  show ?thesis
  proof (cases "last msgs")
    case (AIMessage i c tcs)
    with assms ne have "run_tool_calls db tools d tcs = (out, d')"
      by (simp add: tool_node_def)
    with AIMessage show ?thesis
      by (auto dest: run_tool_calls_ids)
  qed (use assms ne in \<open>simp add: tool_node_def\<close>)+
qed

lemma tool_node_fresh:
  "tool_node db tools d ms = Inr (ws, d') \<Longrightarrow> \<forall>m\<in>set ws. msg_id m = None"
  by (auto simp: tool_node_def split: if_splits message.splits dest: run_tool_calls_ids)

theorem get_table_info_missing_witness:
  "''orders'' \<in> set [''customers'', ''orders''] \<and> ''orders'' \<notin> set (usable_tables example_db)
   \<and> get_table_info_no_throw example_db [''customers'', ''orders'']
       = ''Error: table_names {'' @ py_repr_str ''orders'' @ ''} not found in database''"
proof -
  have h1: "''orders'' \<in> set [''customers'', ''orders'']" by simp
  have h2: "''orders'' \<notin> set (usable_tables example_db)" by (simp add: example_db_def)
  from get_table_info_missing [OF h1 h2] have "\<exists>msg. get_table_info_no_throw example_db
      [''customers'', ''orders''] = ''Error: table_names {'' @ msg @ ''} not found in database''" .
  moreover have "get_table_info_no_throw example_db [''customers'', ''orders'']
       = ''Error: table_names {'' @ py_repr_str ''orders'' @ ''} not found in database''"
    by (simp add: get_table_info_no_throw_def get_table_info_def example_db_def)
  ultimately show ?thesis using h1 h2 by blast
qed

theorem tool_node_correlation_witness:
  "tool_node example_db [QueryTool] [''customers'']
     [AIMessage (Some 4) '''' [\<lparr>tc_name = ''sql_db_query'', tc_args = [(''query'', ''DROP TABLE customers'')],
                             tc_id = ''call_7''\<rparr>]]
   = Inr ([ToolMessage None '''' ''call_7''], [])
   \<and> map tool_call_id_of [ToolMessage None '''' ''call_7''] = [Some ''call_7'']"
proof -
  let ?tc = "\<lparr>tc_name = ''sql_db_query'', tc_args = [(''query'', ''DROP TABLE customers'')],
             tc_id = ''call_7''\<rparr>"
  have run: "tool_node example_db [QueryTool] [''customers''] [AIMessage (Some 4) '''' [?tc]]
     = Inr ([ToolMessage None '''' ''call_7''], [])"
    by (simp add: tool_node_def run_tool_call_def run_no_throw_def run_def example_db_def
                  example_execute_def)
  from tool_node_correlation [OF run] have
    "map tool_call_id_of [ToolMessage None '''' ''call_7''] = [Some ''call_7'']" by simp
  with run show ?thesis by simp
qed

text \<open>C10. The schema tool splits its \<^verbatim>\<open>table_names\<close> argument on commas and strips
  each name; when all names are usable tables it returns the description blocks of exactly
  the named tables, each once, joined by blank lines, and leaves the store unchanged.\<close>

theorem schema_tool_describes_requested:
  assumes "\<forall>t\<in>set (map py_strip (py_split (CHR '','') tn)). t \<in> set (usable_tables db)"
    and "distinct (usable_tables db)"
  shows "\<exists>bs. tool_invoke db d SchemaTool [(''table_names'', tn)]
                 = Inr (py_join (newline @ newline) bs, d)
             \<and> mset bs = mset (map (table_ddl db) (remdups (map py_strip (py_split (CHR '','') tn))))"
proof -
  let ?req = "map py_strip (py_split (CHR '','') tn)"
  have "set ?req \<subseteq> set (usable_tables db)" using assms(1) by blast
  from get_table_info_blocks [OF this assms(2)] obtain bs
    where "get_table_info db ?req = Inr (py_join (newline @ newline) bs)"
      and "mset bs = mset (map (table_ddl db) (remdups ?req))" by blast
  then show ?thesis
    by (auto simp: get_table_info_no_throw_def)
qed

theorem schema_tool_describes_requested_witness:
  "map py_strip (py_split (CHR '','') ''invoices, customers'') = [''invoices'', ''customers'']
   \<and> distinct (usable_tables example_db)
   \<and> tool_invoke example_db [] SchemaTool [(''table_names'', ''invoices, customers'')]
       = Inr (''CREATE TABLE customers (id INTEGER)'' @ newline @ newline @ ''CREATE TABLE invoices (id INTEGER)'', [])"
proof -
  have h1: "\<forall>t\<in>set (map py_strip (py_split (CHR '','') ''invoices, customers'')). t \<in> set (usable_tables example_db)"
    by code_simp
  have h2: "distinct (usable_tables example_db)" by (simp add: example_db_def)
  from schema_tool_describes_requested [OF h1 h2, of "[]"] obtain bs where
    "tool_invoke example_db [] SchemaTool [(''table_names'', ''invoices, customers'')]
       = Inr (py_join (newline @ newline) bs, [])" by blast
  moreover have "tool_invoke example_db [] SchemaTool [(''table_names'', ''invoices, customers'')]
       = Inr (''CREATE TABLE customers (id INTEGER)'' @ newline @ newline @ ''CREATE TABLE invoices (id INTEGER)'', [])"
    by code_simp
  moreover have "map py_strip (py_split (CHR '','') ''invoices, customers'') = [''invoices'', ''customers'']"
    by code_simp
  ultimately show ?thesis using h2 by blast
qed

lemma calls_answered_append:
  "calls_answered seen (xs @ ys) \<longleftrightarrow> calls_answered seen xs \<and> calls_answered (seen @ call_ids xs) ys"
  by (induction xs arbitrary: seen) (auto simp: call_ids_def)

lemma calls_answered_mono:
  "calls_answered seen ms \<Longrightarrow> set seen \<subseteq> set seen' \<Longrightarrow> calls_answered seen' ms"
proof (induction ms arbitrary: seen seen')
  case (Cons m ms)
  let ?x = "map tc_id (tool_calls_of m)"
  from Cons.prems(1) have h: "case tool_call_id_of m of Some t \<Rightarrow> t \<in> set seen | None \<Rightarrow> True"
    and r: "calls_answered (seen @ ?x) ms" by simp_all
  have "set (seen @ ?x) \<subseteq> set (seen' @ ?x)" using Cons.prems(2) by auto
  with r have "calls_answered (seen' @ ?x) ms" by (rule Cons.IH)
  moreover have "case tool_call_id_of m of Some t \<Rightarrow> t \<in> set seen' | None \<Rightarrow> True"
    using h Cons.prems(2) by (cases "tool_call_id_of m") auto
  ultimately show ?case by simp
qed simp

lemma tool_call_id_of_with_id [simp]: "tool_call_id_of (with_id i m) = tool_call_id_of m"
  by (cases m) auto

lemma calls_answered_fresh_ids [simp]:
  "calls_answered seen (fresh_ids k ws) = calls_answered seen ws"
  by (induction ws arbitrary: seen k) auto

lemma calls_answered_tool_outputs:
  assumes "map tool_call_id_of out = map (\<lambda>tc. Some (tc_id tc)) tcs"
    and "set (map tc_id tcs) \<subseteq> set seen"
  shows "calls_answered seen out"
  using assms
proof (induction out arbitrary: tcs seen)
  case (Cons m out)
  then obtain tc tcs' where tcs: "tcs = tc # tcs'" by (cases tcs) auto
  with Cons.prems have "calls_answered (seen @ map tc_id (tool_calls_of m)) out"
    by (intro Cons.IH [of tcs']) auto
  with Cons.prems tcs show ?case by simp
qed simp

lemma last_call_ids: "ms \<noteq> [] \<Longrightarrow> set (map tc_id (tool_calls_of (last ms))) \<subseteq> set (call_ids ms)"
  by (induction ms) (auto simp: call_ids_def)

lemma tool_node_log:
  assumes tn: "tool_node dbs tools d ms = Inr (ws, d')"
  shows "calls_answered (call_ids ms) ws"
proof -
  have ne: "ms \<noteq> []" using tn by (auto simp: tool_node_def)
  obtain i c tcs where l: "last ms = AIMessage i c tcs"
    using tn ne by (cases "last ms") (simp_all add: tool_node_def)
  have rt: "run_tool_calls dbs tools d tcs = (ws, d')"
    using tn ne l by (simp add: tool_node_def)
  have "map tool_call_id_of ws = map (\<lambda>tc. Some (tc_id tc)) tcs"
    using run_tool_calls_ids [OF rt] by simp
  moreover have "set (map tc_id tcs) \<subseteq> set (call_ids ms)"
    using last_call_ids [OF ne] l by simp
  ultimately show ?thesis by (rule calls_answered_tool_outputs)
qed

lemma call_ids_append [simp]: "call_ids (xs @ ys) = call_ids xs @ call_ids ys"
  by (simp add: call_ids_def)

lemma calls_answered_last:
  assumes "calls_answered [] ms" and "ms \<noteq> []"
  shows "calls_answered (call_ids ms) [last ms]"
proof -
  have "calls_answered (call_ids (butlast ms)) [last ms]"
    using assms calls_answered_append [of "[]" "butlast ms" "[last ms]"] by simp
  moreover have "set (call_ids (butlast ms)) \<subseteq> set (call_ids ms)"
    using append_butlast_last_id [OF assms(2)] call_ids_append [of "butlast ms" "[last ms]"]
    by (metis Un_upper1 set_append)
  ultimately show ?thesis by (rule calls_answered_mono)
qed

lemma calls_answered_butlast:
  "calls_answered [] ms \<Longrightarrow> ms \<noteq> [] \<Longrightarrow> calls_answered [] (butlast ms)"
  using calls_answered_append [of "[]" "butlast ms" "[last ms]"] by simp

end
