(* ===== verification/Nodes.thy ===== *)
theory Nodes
  imports SqlTools
begin

text \<open>
  The six nodes of the agent's graph (src/app.py lines 94-195) and the router
  \<^verbatim>\<open>should_continue\<close>. The language model (\<^verbatim>\<open>ChatGroq\<close>, temperature 0) is a
  parameter of the environment: a function from the messages it is sent and the names of
  the tools bound to it (the empty list for an unbound model) to an exception or a reply
  (content and tool calls). The reply becomes an \<^verbatim>\<open>AIMessage\<close> whose run id is fresh;
  the model lets the reducer's counter supply it. Each node returns the messages it writes
  and the database store after it (only \<^verbatim>\<open>run_query\<close> changes the store), or the
  exception that escapes it.
\<close>

section \<open>Environment and node names\<close>

type_synonym llm_reply = "string \<times> tool_call list"

record 'd env =
  llm :: "message list \<Rightarrow> string list \<Rightarrow> exc + llm_reply"
  db :: "'d database"

type_synonym 'd node_result = "exc + (message list \<times> 'd)"

datatype node = ListTables | CallGetSchema | GetSchema | GenerateQuery | CheckQuery | RunQuery

fun ai_msg :: "llm_reply \<Rightarrow> message" where
  "ai_msg (c, tcs) = AIMessage None c tcs"

section \<open>Prompts\<close>

text \<open>A triple-quoted f-string of the source: a line break before every line, each
  non-empty line indented by twelve spaces, and a final indented line break.\<close>

definition indent :: string where
  "indent = replicate 12 (CHR '' '')"

definition prompt_text :: "string list \<Rightarrow> string" where
  "prompt_text ls = concat (map (\<lambda>l. newline @ (if l = [] then [] else indent @ l)) ls) @ newline @ indent"

definition generate_query_system_prompt :: "string \<Rightarrow> string" where
  "generate_query_system_prompt dialect_name = prompt_text
     [''You are an agent designed to interact with a SQL database.'',
      ''Given an input question, create a syntactically correct '' @ dialect_name @ '' query to run,'',
      ''then look at the results of the query and return the answer. Unless the user'',
      ''specifies a specific number of examples they wish to obtain, always limit your'',
      ''query to at most 5 results.'',
      [],
      ''You can order the results by a relevant column to return the most interesting'',
      ''examples in the database. Never query for all the columns from a specific table,'',
      ''only ask for the relevant columns given the question.'',
      [],
      ''where ever possible return the available data in tabular format.'',
      [],
      ''DO NOT make any DML statements (INSERT, UPDATE, DELETE, DROP etc.) to the database.'']"

definition check_query_system_prompt :: "string \<Rightarrow> string" where
  "check_query_system_prompt dialect_name = prompt_text
     [''You are a SQL expert with a strong attention to detail.'',
      ''Double check the '' @ dialect_name @ '' query for common mistakes, including:'',
      ''- Using NOT IN with NULL values'',
      ''- Using UNION when UNION ALL should have been used'',
      ''- Using BETWEEN for exclusive ranges'',
      ''- Data type mismatch in predicates'',
      ''- Properly quoting identifiers'',
      ''- Using the correct number of arguments for functions'',
      ''- Casting to the correct data type'',
      ''- Using the proper columns for joins'',
      [],
      ''If there are any of the above mistakes, rewrite the query. If there are no mistakes,'',
      ''just reproduce the original query.'',
      [],
      ''You will call the appropriate tool to execute the query after running this check.'']"

section \<open>The nodes\<close>

text \<open>\<^verbatim>\<open>list_tables\<close> (lines 99-110): a synthesised tool call with the fixed id
  \<^verbatim>\<open>abc123\<close>, the list-tables tool's answer to it, and a summary message. No call
  to the language model.\<close>

definition list_tables_call :: tool_call where
  "list_tables_call = \<lparr>tc_name = ''sql_db_list_tables'', tc_args = [], tc_id = ''abc123''\<rparr>"

definition list_tables :: "'d env \<Rightarrow> 'd \<Rightarrow> message list \<Rightarrow> 'd node_result" where
  "list_tables e d msgs =
     (let tool_call_message = AIMessage None '''' [list_tables_call];
          tool_message = ToolMessage None (list_tables_text (db e)) (tc_id list_tables_call);
          response = AIMessage None (''Available tables: '' @ msg_content tool_message) []
      in Inr ([tool_call_message, tool_message, response], d))"

text \<open>\<^verbatim>\<open>call_get_schema\<close> (lines 112-121): the model bound to the schema tool; if the
  call raises, the descriptions of the first three usable tables as plain text.\<close>

definition call_get_schema :: "'d env \<Rightarrow> 'd \<Rightarrow> message list \<Rightarrow> 'd node_result" where
  "call_get_schema e d msgs =
     (case llm e msgs [tool_name SchemaTool] of
        Inr r \<Rightarrow> Inr ([ai_msg r], d)
      | Inl _ \<Rightarrow>
          (let tables = take 3 (usable_tables (db e));
               schema_info = get_table_info_no_throw (db e) tables
           in Inr ([AIMessage None (''Schema information: '' @ schema_info) []], d)))"

text \<open>\<^verbatim>\<open>get_schema\<close> and \<^verbatim>\<open>run_query\<close> (lines 94-97): tool nodes over one tool each.\<close>

definition get_schema :: "'d env \<Rightarrow> 'd \<Rightarrow> message list \<Rightarrow> 'd node_result" where
  "get_schema e d msgs = tool_node (db e) [SchemaTool] d msgs"

definition run_query :: "'d env \<Rightarrow> 'd \<Rightarrow> message list \<Rightarrow> 'd node_result" where
  "run_query e d msgs = tool_node (db e) [QueryTool] d msgs"

text \<open>\<^verbatim>\<open>generate_query\<close> (lines 139-151): the system prompt before the history, the
  model bound to the query tool; if that raises, the unbound model with an extra
  instruction, whose exception is not caught.\<close>

definition generate_query_fallback_suffix :: string where
  "generate_query_fallback_suffix =
     newline @ newline @ ''Please provide the SQL query directly in your response.''"

definition generate_query :: "'d env \<Rightarrow> 'd \<Rightarrow> message list \<Rightarrow> 'd node_result" where
  "generate_query e d msgs =
     (let system_message = SystemMessage None (generate_query_system_prompt (dialect (db e)))
      in case llm e (system_message # msgs) [tool_name QueryTool] of
           Inr r \<Rightarrow> Inr ([ai_msg r], d)
         | Inl _ \<Rightarrow>
             (let system_message' = SystemMessage None
                    (generate_query_system_prompt (dialect (db e)) @ generate_query_fallback_suffix)
              in case llm e (system_message' # msgs) [] of
                   Inr r \<Rightarrow> Inr ([ai_msg r], d)
                 | Inl ex \<Rightarrow> Inl ex))"

text \<open>\<^verbatim>\<open>check_query\<close> (lines 171-187). The first tool call's \<^verbatim>\<open>query\<close> argument is
  sent alone to the model bound to the query tool, and the reply takes over the id of
  the message it reviews (\<^verbatim>\<open>response.id = last_message.id\<close>). A message without tool
  calls is returned as it is. Every exception inside (an empty history, a missing
  \<^verbatim>\<open>query\<close> key, a failed model call) becomes an AI message with the error text.\<close>

definition check_query_error :: "exc \<Rightarrow> message" where
  "check_query_error ex = AIMessage None (''Error in query checking: '' @ exc_str ex) []"

definition check_query :: "'d env \<Rightarrow> 'd \<Rightarrow> message list \<Rightarrow> 'd node_result" where
  "check_query e d msgs =
     (if msgs = [] then Inr ([check_query_error (IndexError ''list index out of range'')], d)
      else
        (let system_message = SystemMessage None (check_query_system_prompt (dialect (db e)));
             last_message = last msgs
         in if tool_calls_of last_message \<noteq> []
            then (case map_of (tc_args (hd (tool_calls_of last_message))) ''query'' of
                    None \<Rightarrow> Inr ([check_query_error (KeyError ''query'')], d)
                  | Some q \<Rightarrow>
                      (case llm e [system_message, HumanMessage None q] [tool_name QueryTool] of
                         Inl ex \<Rightarrow> Inr ([check_query_error ex], d)
                       | Inr r \<Rightarrow> Inr ([with_id (msg_id last_message) (ai_msg r)], d)))
            else Inr ([last_message], d)))"

text \<open>\<^verbatim>\<open>should_continue\<close> (lines 189-195): \<open>Some CheckQuery\<close> when the last message
  has tool calls, \<open>None\<close> for \<^verbatim>\<open>END\<close>; an empty history raises \<^verbatim>\<open>IndexError\<close>.\<close>

definition should_continue :: "message list \<Rightarrow> exc + node option" where
  "should_continue msgs =
     (if msgs = [] then Inl (IndexError ''list index out of range'')
      else if tool_calls_of (last msgs) \<noteq> [] then Inr (Some CheckQuery)
      else Inr None)"

text \<open>Dispatch from a node name to its function (\<^verbatim>\<open>builder.add_node\<close>, lines 199-204).\<close>

fun run_node :: "'d env \<Rightarrow> node \<Rightarrow> 'd \<Rightarrow> message list \<Rightarrow> 'd node_result" where
  "run_node e ListTables = list_tables e"
| "run_node e CallGetSchema = call_get_schema e"
| "run_node e GetSchema = get_schema e"
| "run_node e GenerateQuery = generate_query e"
| "run_node e CheckQuery = check_query e"
| "run_node e RunQuery = run_query e"

section \<open>Example collaborators\<close>

text \<open>Deterministic stand-ins for the language model, used by the witnesses and the
  scenarios of the root theory. \<open>stub_llm rounds q\<close> asks for every table's schema,
  drafts the query \<open>q\<close> until \<open>rounds\<close> reviewed queries have results in the history,
  reproduces the query it is asked to review, and then answers in text.
  \<open>failing_on tools sel\<close> makes the calls bound to \<open>tools\<close> whose message list satisfies
  \<open>sel\<close> raise a rate-limit error.\<close>

definition query_call :: "string \<Rightarrow> string \<Rightarrow> tool_call" where
  "query_call i q = \<lparr>tc_name = tool_name QueryTool, tc_args = [(''query'', q)], tc_id = i\<rparr>"

definition schema_call :: tool_call where
  "schema_call =
     \<lparr>tc_name = tool_name SchemaTool, tc_args = [(''table_names'', ''customers, invoices'')],
      tc_id = ''call_s''\<rparr>"

definition count_results :: "message list \<Rightarrow> nat" where
  "count_results ms = length (filter (\<lambda>m. tool_call_id_of m = Some ''call_checked'') ms)"

definition stub_llm :: "nat \<Rightarrow> string \<Rightarrow> message list \<Rightarrow> string list \<Rightarrow> exc + llm_reply" where
  "stub_llm rounds q ms tools =
     (if tools = [tool_name SchemaTool] then Inr ('''', [schema_call])
      else if tools = [tool_name QueryTool] then
        (case ms of
           [SystemMessage _ _, HumanMessage _ x] \<Rightarrow> Inr ('''', [query_call ''call_checked'' x])
         | _ \<Rightarrow> if count_results ms < rounds then Inr ('''', [query_call ''call_draft'' q])
                else Inr (''There are 7 invoices.'', []))
      else Inl (APIError ''unexpected request''))"

definition failing_on ::
  "string list \<Rightarrow> (message list \<Rightarrow> bool) \<Rightarrow> nat \<Rightarrow> string \<Rightarrow> message list \<Rightarrow> string list
   \<Rightarrow> exc + llm_reply" where
  "failing_on tools0 sel rounds q ms tools =
     (if tools = tools0 \<and> sel ms then Inl (APIError ''Rate limit reached'')
      else stub_llm rounds q ms tools)"

definition is_review :: "message list \<Rightarrow> bool" where
  "is_review ms \<longleftrightarrow> length ms = 2"

text \<open>\<open>direct_llm a\<close> asks for the schema of both tables and then answers \<open>a\<close> at once,
  without a query.\<close>

definition direct_llm :: "string \<Rightarrow> message list \<Rightarrow> string list \<Rightarrow> exc + llm_reply" where
  "direct_llm a ms tools =
     (if tools = [tool_name SchemaTool] then Inr ([], [schema_call]) else Inr (a, []))"

definition scenario :: "(message list \<Rightarrow> string list \<Rightarrow> exc + llm_reply) \<Rightarrow> string list env" where
  "scenario f = \<lparr>llm = f, db = example_db\<rparr>"

section \<open>Lemmas\<close>

lemma is_ai_check_query_error [simp]: "is_ai (check_query_error ex)"
  by (simp add: check_query_error_def)

lemma msg_id_check_query_error [simp]: "msg_id (check_query_error ex) = None"
  by (simp add: check_query_error_def)

lemma is_ai_with_id [simp]: "is_ai (with_id i m) = is_ai m"
  by (cases m) auto

lemma is_ai_ai_msg [simp]: "is_ai (ai_msg r)"
  by (cases r) auto

lemma msg_id_ai_msg [simp]: "msg_id (ai_msg r) = None"
  by (cases r) auto

text \<open>What \<^verbatim>\<open>check_query\<close> writes for a message with tool calls: one AI message,
  either the reply carrying the reviewed message's id or an error message.\<close>

lemma check_query_reviewed:
  assumes "ms \<noteq> []" and "tool_calls_of (last ms) \<noteq> []"
    and "check_query e d ms = Inr (ws, d')"
  shows "d' = d \<and> ((\<exists>m. ws = [m] \<and> msg_id m = msg_id (last ms) \<and> is_ai m)
                     \<or> (\<exists>ex. ws = [check_query_error ex]))"
  using assms
  by (auto simp: check_query_def Let_def split: option.splits sum.splits)

text \<open>What any node writes: messages without ids (appended by the reducer), or one
  message that carries the id of the last message (replacing it).\<close>

lemma node_writes:
  assumes "run_node e n d ms = Inr (ws, d')" and "ms \<noteq> []"
  shows "(\<forall>m\<in>set ws. msg_id m = None) \<or> (\<exists>m. ws = [m] \<and> msg_id m = msg_id (last ms))"
proof (cases n)
  case ListTables
  with assms show ?thesis by (auto simp: list_tables_def)
next
  case CallGetSchema
  with assms show ?thesis by (auto simp: call_get_schema_def Let_def split: sum.splits)
next
  case GetSchema
  with assms show ?thesis by (auto simp: get_schema_def dest: tool_node_fresh)
next
  case GenerateQuery
  with assms show ?thesis by (auto simp: generate_query_def Let_def split: sum.splits)
next
  case CheckQuery
  with assms show ?thesis
    by (auto simp: check_query_def Let_def split: option.splits sum.splits if_splits)
next
  case RunQuery
  with assms show ?thesis by (auto simp: run_query_def dest: tool_node_fresh)
qed

text \<open>C15. When the model call of \<^verbatim>\<open>call_get_schema\<close> raises, the node still succeeds:
  it writes one AI message without tool calls, \<^verbatim>\<open>"Schema information: "\<close> followed by
  the description blocks of exactly the first three usable tables.\<close>

theorem call_get_schema_fallback:
  assumes "llm e ms [tool_name SchemaTool] = Inl ex" and "distinct (usable_tables (db e))"
  shows "\<exists>bs. call_get_schema e d ms =
               Inr ([AIMessage None (''Schema information: '' @ py_join (newline @ newline) bs) []], d)
             \<and> mset bs = mset (map (table_ddl (db e)) (take 3 (usable_tables (db e))))"
proof -
  let ?ts = "take 3 (usable_tables (db e))"
  have sub: "set ?ts \<subseteq> set (usable_tables (db e))" by (rule set_take_subset)
  have "remdups ?ts = ?ts" using assms(2) by simp
  with get_table_info_blocks [OF sub assms(2)] obtain bs
    where "get_table_info (db e) ?ts = Inr (py_join (newline @ newline) bs)"
      and "mset bs = mset (map (table_ddl (db e)) ?ts)" by auto
  with assms(1) show ?thesis
    by (auto simp: call_get_schema_def get_table_info_no_throw_def)
qed

theorem call_get_schema_fallback_witness:
  "llm (scenario (failing_on [tool_name SchemaTool] (\<lambda>_. True) 1 ''SELECT 1'')) [] [tool_name SchemaTool]
     = Inl (APIError ''Rate limit reached'')
   \<and> distinct (usable_tables (db (scenario (failing_on [tool_name SchemaTool] (\<lambda>_. True) 1 ''SELECT 1''))))
   \<and> call_get_schema (scenario (failing_on [tool_name SchemaTool] (\<lambda>_. True) 1 ''SELECT 1'')) [] []
     = Inr ([AIMessage None (''Schema information: CREATE TABLE customers (id INTEGER)''
              @ newline @ newline @ ''CREATE TABLE invoices (id INTEGER)'') []], [])"
proof -
  let ?e = "scenario (failing_on [tool_name SchemaTool] (\<lambda>_. True) 1 ''SELECT 1'')"
  have h1: "llm ?e [] [tool_name SchemaTool] = Inl (APIError ''Rate limit reached'')"
    by (simp add: scenario_def failing_on_def)
  have h2: "distinct (usable_tables (db ?e))" by (simp add: scenario_def example_db_def)
  from call_get_schema_fallback [OF h1 h2, of "[]"] obtain bs where
    "call_get_schema ?e [] [] =
       Inr ([AIMessage None (''Schema information: '' @ py_join (newline @ newline) bs) []], [])"
    by blast
  moreover have "call_get_schema ?e [] []
     = Inr ([AIMessage None (''Schema information: CREATE TABLE customers (id INTEGER)''
              @ newline @ newline @ ''CREATE TABLE invoices (id INTEGER)'') []], [])"
    by code_simp
  ultimately show ?thesis using h1 h2 by simp
qed

text \<open>C16. The reviewer passes a message without tool calls through unchanged: it
  writes that same message back, and the reducer, matching it by id, leaves the log and
  the id counter exactly as they were.\<close>

theorem check_query_passthrough:
  assumes "ms \<noteq> []" and "ids_wf k ms" and "tool_calls_of (last ms) = []"
  shows "check_query e d ms = Inr ([last ms], d) \<and> add_messages ms [last ms] k = (ms, k)"
proof -
  have "check_query e d ms = Inr ([last ms], d)"
    using assms by (simp add: check_query_def Let_def)
  moreover have "add_messages ms [last ms] k = (butlast ms @ [last ms], k)"
    using assms(2,1) by (rule add_messages_replace_last) simp
  ultimately show ?thesis using assms(1) by simp
qed

theorem check_query_passthrough_witness:
  "[HumanMessage (Some 0) ''hi''] \<noteq> [] \<and> ids_wf 1 [HumanMessage (Some 0) ''hi'']
   \<and> tool_calls_of (last [HumanMessage (Some 0) ''hi'']) = []
   \<and> check_query (scenario (stub_llm 1 ''SELECT 1'')) [] [HumanMessage (Some 0) ''hi'']
       = Inr ([HumanMessage (Some 0) ''hi''], [])
   \<and> add_messages [HumanMessage (Some 0) ''hi''] [HumanMessage (Some 0) ''hi''] 1
       = ([HumanMessage (Some 0) ''hi''], 1)"
proof -
  have h: "[HumanMessage (Some 0) ''hi''] \<noteq> []" "ids_wf 1 [HumanMessage (Some 0) ''hi'']"
    "tool_calls_of (last [HumanMessage (Some 0) ''hi'']) = []"
    by (simp_all add: ids_wf_def)
  from check_query_passthrough [OF h] h show ?thesis by simp
qed

lemma check_query_writes:
  "check_query e d ms = Inr (ws, d') \<Longrightarrow>
   (\<exists>ex. ws = [check_query_error ex]) \<or> (\<exists>r. ws = [with_id (msg_id (last ms)) (ai_msg r)])
   \<or> ws = [last ms]"
  unfolding check_query_def by (auto simp: Let_def split: if_splits option.splits sum.splits)

lemma tool_call_id_of_ai_msg [simp]: "tool_call_id_of (ai_msg r) = None"
  by (cases r) auto

lemma node_log:
  assumes run: "run_node e n d ms = Inr (ws, d')" and ne: "ms \<noteq> []"
    and wf: "calls_answered [] ms"
  shows "calls_answered (call_ids ms) ws
         \<and> (\<forall>m. ws = [m] \<longrightarrow> tool_call_id_of m = None \<or> m = last ms \<or> msg_id m = None)"
proof (cases n)
  case ListTables
  with run show ?thesis
    by (auto simp: list_tables_def list_tables_call_def)
next
  case CallGetSchema
  with run show ?thesis
    by (auto simp: call_get_schema_def Let_def split: sum.splits)
next
  case GetSchema
  then have tn: "tool_node (db e) [SchemaTool] d ms = Inr (ws, d')"
    using run by (simp add: get_schema_def)
  show ?thesis
    using tool_node_log [OF tn] tool_node_fresh [OF tn] by auto
next
  case GenerateQuery
  with run show ?thesis
    by (auto simp: generate_query_def Let_def split: sum.splits)
next
  case CheckQuery
  then have "check_query e d ms = Inr (ws, d')" using run by simp
  from check_query_writes [OF this] show ?thesis
    using calls_answered_last [OF wf ne] by (auto simp: check_query_error_def)
next
  case RunQuery
  then have tn: "tool_node (db e) [QueryTool] d ms = Inr (ws, d')"
    using run by (simp add: run_query_def)
  show ?thesis
    using tool_node_log [OF tn] tool_node_fresh [OF tn] by auto
qed

end
