(* ===== verification/Graph.thy ===== *)
theory Graph
  imports Nodes
begin

text \<open>
  The compiled state graph (src/app.py lines 197-214) and its execution by LangGraph's
  Pregel loop in \<^verbatim>\<open>stream_mode="values"\<close>. The stream's state is the next node to run
  (\<open>None\<close> once \<^verbatim>\<open>END\<close> is reached), the graph's values (the message log, the id
  counter of the reducer, and the database store) and the super-step counter. The first
  chunk is the input itself; each later chunk is the values after one node has run and its
  messages have gone through \<^verbatim>\<open>add_messages\<close>. An exception escaping a node ends the
  stream by propagating to the consumer.
\<close>

section \<open>Graph values and stream state\<close>

record 'd gstate =
  msgs :: "message list"
  fresh :: nat
  store :: 'd

record 'd pregel =
  pos :: "node option"
  vals :: "'d gstate"
  step :: nat

datatype 's chunk = StreamEnd | Raised exc | Chunk 's

section \<open>The graph\<close>

text \<open>\<^verbatim>\<open>add_edge(START, "list_tables")\<close> and the unconditional edges, in source order.\<close>

definition graph_entry :: node where
  "graph_entry = ListTables"

definition graph_edges :: "(node \<times> node) list" where
  "graph_edges =
     [(ListTables, CallGetSchema), (CallGetSchema, GetSchema), (GetSchema, GenerateQuery),
      (CheckQuery, RunQuery), (RunQuery, GenerateQuery)]"

text \<open>Where to go after a node, on the values after its update: the conditional edge of
  \<^verbatim>\<open>generate_query\<close> asks \<^verbatim>\<open>should_continue\<close>, every other node has one edge.\<close>

definition route :: "node \<Rightarrow> message list \<Rightarrow> exc + node option" where
  "route n ms =
     (if n = GenerateQuery then should_continue ms else Inr (map_of graph_edges n))"

text \<open>One super-step: run the scheduled node, merge its messages, pick the next node.\<close>

definition gnext :: "'d env \<Rightarrow> 'd pregel \<Rightarrow> 'd pregel chunk" where
  "gnext e p =
     (case pos p of
        None \<Rightarrow> StreamEnd
      | Some n \<Rightarrow>
          (case run_node e n (store (vals p)) (msgs (vals p)) of
             Inl ex \<Rightarrow> Raised ex
           | Inr (writes, d') \<Rightarrow>
               (let (ms', k') = add_messages (msgs (vals p)) writes (fresh (vals p))
                in case route n ms' of
                     Inl ex \<Rightarrow> Raised ex
                   | Inr nx \<Rightarrow> Chunk \<lparr>pos = nx, vals = \<lparr>msgs = ms', fresh = k', store = d'\<rparr>,
                                      step = Suc (step p)\<rparr>)))"

text \<open>The input \<^verbatim>\<open>{"messages": [HumanMessage(content=question)]}\<close>, merged into the
  empty log by the reducer, with the entry node scheduled.\<close>

definition graph_input :: "string \<Rightarrow> 'd \<Rightarrow> 'd pregel" where
  "graph_input q d =
     (let (ms, k) = add_messages [] [HumanMessage None q] 0
      in \<lparr>pos = Some graph_entry, vals = \<lparr>msgs = ms, fresh = k, store = d\<rparr>, step = 0\<rparr>)"

section \<open>Reachable stream states\<close>

inductive reach :: "'d env \<Rightarrow> 'd pregel \<Rightarrow> bool" for e :: "'d env" where
  start: "reach e (graph_input q d)"
| advance: "reach e p \<Longrightarrow> gnext e p = Chunk p' \<Longrightarrow> reach e p'"

text \<open>The invariant of the stream state: the log is non-empty with distinct ids below
  the counter; \<^verbatim>\<open>check_query\<close> is scheduled only after an AI message with tool calls,
  and \<^verbatim>\<open>run_query\<close> only after an AI message.\<close>

definition graph_inv :: "'d pregel \<Rightarrow> bool" where
  "graph_inv p \<longleftrightarrow>
     msgs (vals p) \<noteq> [] \<and> ids_wf (fresh (vals p)) (msgs (vals p))
     \<and> (pos p = Some CheckQuery \<longrightarrow> tool_calls_of (last (msgs (vals p))) \<noteq> [])
     \<and> (pos p = Some RunQuery \<longrightarrow> is_ai (last (msgs (vals p))))"

section \<open>The orchestrator of the specification\<close>

text \<open>The states and transitions of the orchestrator as the specification describes it
  (section 4.5): the abstract contract the graph is to implement.\<close>

datatype phase =
    PListTables | PGetSchemaRequest | PGetSchemaResult | PGenerateQuery
  | PCheckQuery | PRunQuery | PTerminal

inductive spec_step :: "phase \<Rightarrow> phase \<Rightarrow> bool" where
  list_tables: "spec_step PListTables PGetSchemaRequest"
| schema_request: "spec_step PGetSchemaRequest PGetSchemaResult"
| schema_result: "spec_step PGetSchemaResult PGenerateQuery"
| to_check: "spec_step PGenerateQuery PCheckQuery"
| to_terminal: "spec_step PGenerateQuery PTerminal"
| check_to_run: "spec_step PCheckQuery PRunQuery"
| run_to_generate: "spec_step PRunQuery PGenerateQuery"

fun phase_of_node :: "node option \<Rightarrow> phase" where
  "phase_of_node None = PTerminal"
| "phase_of_node (Some ListTables) = PListTables"
| "phase_of_node (Some CallGetSchema) = PGetSchemaRequest"
| "phase_of_node (Some GetSchema) = PGetSchemaResult"
| "phase_of_node (Some GenerateQuery) = PGenerateQuery"
| "phase_of_node (Some CheckQuery) = PCheckQuery"
| "phase_of_node (Some RunQuery) = PRunQuery"

definition abs_phase :: "'d pregel \<Rightarrow> phase" where
  "abs_phase p = phase_of_node (pos p)"

section \<open>Example stream states\<close>

text \<open>Concrete states for the witnesses below: the state after \<^verbatim>\<open>list_tables\<close> has run
  on the question \<open>q\<close>, and a state in which \<^verbatim>\<open>check_query\<close> is scheduled on a drafted
  query, with the state that follows it under \<open>stub_llm\<close>.\<close>

definition example_after_list_tables :: "string \<Rightarrow> string list pregel" where
  "example_after_list_tables q =
     \<lparr>pos = Some CallGetSchema,
      vals = \<lparr>msgs = [HumanMessage (Some 0) q, AIMessage (Some 1) '''' [list_tables_call],
                      ToolMessage (Some 2) ''customers, invoices'' ''abc123'',
                      AIMessage (Some 3) ''Available tables: customers, invoices'' []],
              fresh = 4, store = []\<rparr>,
      step = 1\<rparr>"

definition example_review :: "string \<Rightarrow> string list pregel" where
  "example_review i =
     \<lparr>pos = if i = ''call_draft'' then Some CheckQuery else Some RunQuery,
      vals = \<lparr>msgs = [HumanMessage (Some 0) ''q'', AIMessage (Some 1) '''' [query_call i ''SELECT 1'']],
              fresh = 2, store = []\<rparr>,
      step = if i = ''call_draft'' then 4 else 5\<rparr>"

section \<open>Lemmas\<close>

lemma gnext_ChunkE:
  assumes "gnext e p = Chunk p'"
  obtains n ws d' ms' k' nx where "pos p = Some n"
    and "run_node e n (store (vals p)) (msgs (vals p)) = Inr (ws, d')"
    and "add_messages (msgs (vals p)) ws (fresh (vals p)) = (ms', k')"
    and "route n ms' = Inr nx"
    and "p' = \<lparr>pos = nx, vals = \<lparr>msgs = ms', fresh = k', store = d'\<rparr>, step = Suc (step p)\<rparr>"
  using assms
  by (auto simp: gnext_def split: option.splits sum.splits prod.splits)

lemma route_to_CheckQuery:
  "route n ms = Inr (Some CheckQuery) \<Longrightarrow> n = GenerateQuery \<and> ms \<noteq> [] \<and> tool_calls_of (last ms) \<noteq> []"
  by (auto simp: route_def should_continue_def graph_edges_def split: if_splits)

lemma route_to_RunQuery:
  "route n ms = Inr (Some RunQuery) \<Longrightarrow> n = CheckQuery"
  by (cases n) (auto simp: route_def should_continue_def graph_edges_def split: if_splits)

lemma add_messages_writes:
  assumes wf: "ids_wf k ms" and ne: "ms \<noteq> []"
    and w: "(\<forall>m\<in>set ws. msg_id m = None) \<or> (\<exists>m. ws = [m] \<and> msg_id m = msg_id (last ms))"
    and am: "add_messages ms ws k = (ms', k')"
  shows "ids_wf k' ms' \<and> ms' \<noteq> []
         \<and> (\<forall>m. ws = [m] \<longrightarrow> is_ai (last ms') = is_ai m)"
  using w
proof
  assume none: "\<forall>m\<in>set ws. msg_id m = None"
  with wf am have eq: "ms' = ms @ fresh_ids k ws" "k' = k + length ws"
    by (simp_all add: add_messages_append_fresh)
  then show ?thesis
    using wf ne ids_wf_append_fresh by (auto simp: is_ai_with_id)
next
  assume "\<exists>m. ws = [m] \<and> msg_id m = msg_id (last ms)"
  then obtain m where ws: "ws = [m]" and i: "msg_id m = msg_id (last ms)" by blast
  with wf ne am have "ms' = butlast ms @ [m]" "k' = k"
    by (simp_all add: add_messages_replace_last)
  then show ?thesis
    using wf ne i ws ids_wf_replace_last by auto
qed

text \<open>A super-step whose node writes only messages without ids appends them with
  fresh ids.\<close>

lemma gnext_append:
  assumes "ids_wf k ms" and "run_node e n d ms = Inr (ws, d')"
    and "\<forall>m\<in>set ws. msg_id m = None" and "route n (ms @ fresh_ids k ws) = Inr nx"
  shows "gnext e \<lparr>pos = Some n, vals = \<lparr>msgs = ms, fresh = k, store = d\<rparr>, step = i\<rparr> =
           Chunk \<lparr>pos = nx, vals = \<lparr>msgs = ms @ fresh_ids k ws, fresh = k + length ws, store = d'\<rparr>,
                  step = Suc i\<rparr>"
  using assms by (simp add: gnext_def add_messages_append_fresh)

lemma graph_input_eq:
  "graph_input q d = \<lparr>pos = Some ListTables, vals = \<lparr>msgs = [HumanMessage (Some 0) q], fresh = 1, store = d\<rparr>, step = 0\<rparr>"
proof -
  have "add_messages [] [HumanMessage None q] 0 = ([HumanMessage (Some 0) q], 1)"
    by (simp add: add_messages_append_fresh ids_wf_def)
  then show ?thesis by (simp add: graph_input_def graph_entry_def)
qed

text \<open>One lemma per node of the nominal path, each a super-step from a generic state.\<close>

lemma gnext_list_tables_step:
  "gnext e (graph_input q d) =
     Chunk \<lparr>pos = Some CallGetSchema,
            vals = \<lparr>msgs = [HumanMessage (Some 0) q, AIMessage (Some 1) [] [list_tables_call],
                           ToolMessage (Some 2) (list_tables_text (db e)) ''abc123'',
                           AIMessage (Some 3) (''Available tables: '' @ list_tables_text (db e)) []],
                    fresh = 4, store = d\<rparr>, step = 1\<rparr>"
proof -
  let ?ws = "[AIMessage None [] [list_tables_call], ToolMessage None (list_tables_text (db e)) ''abc123'',
              AIMessage None (''Available tables: '' @ list_tables_text (db e)) []]"
  have "gnext e (graph_input q d) =
     Chunk \<lparr>pos = Some CallGetSchema,
            vals = \<lparr>msgs = [HumanMessage (Some 0) q] @ fresh_ids 1 ?ws, fresh = 1 + length ?ws, store = d\<rparr>,
            step = Suc 0\<rparr>"
    unfolding graph_input_eq
    by (rule gnext_append)
       (simp_all add: ids_wf_def list_tables_def list_tables_call_def route_def graph_edges_def)
  then show ?thesis by simp
qed

lemma gnext_call_get_schema_step:
  assumes "llm e ms [tool_name SchemaTool] = Inr (c, tcs)" and "ids_wf k ms"
  shows "gnext e \<lparr>pos = Some CallGetSchema, vals = \<lparr>msgs = ms, fresh = k, store = d\<rparr>, step = i\<rparr> =
           Chunk \<lparr>pos = Some GetSchema, vals = \<lparr>msgs = ms @ [AIMessage (Some k) c tcs], fresh = Suc k,
                  store = d\<rparr>, step = Suc i\<rparr>"
proof -
  have "gnext e \<lparr>pos = Some CallGetSchema, vals = \<lparr>msgs = ms, fresh = k, store = d\<rparr>, step = i\<rparr> =
          Chunk \<lparr>pos = Some GetSchema, vals = \<lparr>msgs = ms @ fresh_ids k [AIMessage None c tcs],
                 fresh = k + length [AIMessage None c tcs], store = d\<rparr>, step = Suc i\<rparr>"
    by (rule gnext_append) (use assms in \<open>simp_all add: call_get_schema_def route_def graph_edges_def\<close>)
  then show ?thesis by simp
qed

text \<open>When the model call of \<^verbatim>\<open>call_get_schema\<close> raises, the fallback's text is appended
  and the stream goes on to \<^verbatim>\<open>get_schema\<close>.\<close>

lemma gnext_call_get_schema_fallback_step:
  assumes "llm e ms [tool_name SchemaTool] = Inl ex" and "ids_wf k ms"
  shows "gnext e \<lparr>pos = Some CallGetSchema, vals = \<lparr>msgs = ms, fresh = k, store = d\<rparr>, step = i\<rparr> =
           Chunk \<lparr>pos = Some GetSchema,
                  vals = \<lparr>msgs = ms @ [AIMessage (Some k) (''Schema information: '' @
                            get_table_info_no_throw (db e) (take 3 (usable_tables (db e)))) []],
                         fresh = Suc k, store = d\<rparr>, step = Suc i\<rparr>"
proof -
  let ?w = "AIMessage None (''Schema information: '' @
              get_table_info_no_throw (db e) (take 3 (usable_tables (db e)))) []"
  have "gnext e \<lparr>pos = Some CallGetSchema, vals = \<lparr>msgs = ms, fresh = k, store = d\<rparr>, step = i\<rparr> =
          Chunk \<lparr>pos = Some GetSchema, vals = \<lparr>msgs = ms @ fresh_ids k [?w],
                 fresh = k + length [?w], store = d\<rparr>, step = Suc i\<rparr>"
    by (rule gnext_append) (use assms in \<open>simp_all add: call_get_schema_def route_def graph_edges_def\<close>)
  then show ?thesis by simp
qed

lemma gnext_get_schema_step:
  assumes "ms \<noteq> []" and "last ms = AIMessage j c tcs" and "ids_wf k ms"
    and "run_tool_calls (db e) [SchemaTool] d tcs = (out, d')"
  shows "gnext e \<lparr>pos = Some GetSchema, vals = \<lparr>msgs = ms, fresh = k, store = d\<rparr>, step = i\<rparr> =
           Chunk \<lparr>pos = Some GenerateQuery, vals = \<lparr>msgs = ms @ fresh_ids k out, fresh = k + length out,
                  store = d'\<rparr>, step = Suc i\<rparr>"
  using run_tool_calls_ids [OF assms(4)]
  by (intro gnext_append) (use assms in \<open>simp_all add: get_schema_def tool_node_def route_def graph_edges_def\<close>)

lemma gnext_generate_answer_step:
  assumes "llm e (SystemMessage None (generate_query_system_prompt (dialect (db e))) # ms)
             [tool_name QueryTool] = Inr (a, [])"
    and "ids_wf k ms"
  shows "gnext e \<lparr>pos = Some GenerateQuery, vals = \<lparr>msgs = ms, fresh = k, store = d\<rparr>, step = i\<rparr> =
           Chunk \<lparr>pos = None, vals = \<lparr>msgs = ms @ [AIMessage (Some k) a []], fresh = Suc k, store = d\<rparr>,
                  step = Suc i\<rparr>"
proof -
  have "gnext e \<lparr>pos = Some GenerateQuery, vals = \<lparr>msgs = ms, fresh = k, store = d\<rparr>, step = i\<rparr> =
          Chunk \<lparr>pos = None, vals = \<lparr>msgs = ms @ fresh_ids k [AIMessage None a []],
                 fresh = k + length [AIMessage None a []], store = d\<rparr>, step = Suc i\<rparr>"
    by (rule gnext_append) (use assms in \<open>simp_all add: generate_query_def route_def should_continue_def\<close>)
  then show ?thesis by simp
qed

lemma gnext_generate_draft_step:
  assumes "llm e (SystemMessage None (generate_query_system_prompt (dialect (db e))) # ms)
             [tool_name QueryTool] = Inr (c, tcs)"
    and "tcs \<noteq> []" and "ids_wf k ms"
  shows "gnext e \<lparr>pos = Some GenerateQuery, vals = \<lparr>msgs = ms, fresh = k, store = d\<rparr>, step = i\<rparr> =
           Chunk \<lparr>pos = Some CheckQuery, vals = \<lparr>msgs = ms @ [AIMessage (Some k) c tcs], fresh = Suc k,
                  store = d\<rparr>, step = Suc i\<rparr>"
proof -
  have "gnext e \<lparr>pos = Some GenerateQuery, vals = \<lparr>msgs = ms, fresh = k, store = d\<rparr>, step = i\<rparr> =
          Chunk \<lparr>pos = Some CheckQuery, vals = \<lparr>msgs = ms @ fresh_ids k [AIMessage None c tcs],
                 fresh = k + length [AIMessage None c tcs], store = d\<rparr>, step = Suc i\<rparr>"
    by (rule gnext_append) (use assms in \<open>simp_all add: generate_query_def route_def should_continue_def\<close>)
  then show ?thesis by simp
qed

lemma gnext_generate_raises:
  assumes "\<exists>ex1. llm e (SystemMessage None (generate_query_system_prompt (dialect (db e))) # ms)
                   [tool_name QueryTool] = Inl ex1"
    and "llm e (SystemMessage None (generate_query_system_prompt (dialect (db e))
                                    @ generate_query_fallback_suffix) # ms) [] = Inl ex"
  shows "gnext e \<lparr>pos = Some GenerateQuery, vals = \<lparr>msgs = ms, fresh = k, store = d\<rparr>, step = i\<rparr> = Raised ex"
  using assms by (auto simp: gnext_def generate_query_def)

lemma gnext_check_error_step:
  assumes "ms \<noteq> []" and "last ms = AIMessage j c (tc # tcs)" and "map_of (tc_args tc) ''query'' = Some x"
    and "llm e [SystemMessage None (check_query_system_prompt (dialect (db e))), HumanMessage None x]
           [tool_name QueryTool] = Inl ex"
    and "ids_wf k ms"
  shows "gnext e \<lparr>pos = Some CheckQuery, vals = \<lparr>msgs = ms, fresh = k, store = d\<rparr>, step = i\<rparr> =
           Chunk \<lparr>pos = Some RunQuery,
                  vals = \<lparr>msgs = ms @ [with_id (Some k) (check_query_error ex)], fresh = Suc k, store = d\<rparr>,
                  step = Suc i\<rparr>"
proof -
  have "gnext e \<lparr>pos = Some CheckQuery, vals = \<lparr>msgs = ms, fresh = k, store = d\<rparr>, step = i\<rparr> =
          Chunk \<lparr>pos = Some RunQuery, vals = \<lparr>msgs = ms @ fresh_ids k [check_query_error ex],
                 fresh = k + length [check_query_error ex], store = d\<rparr>, step = Suc i\<rparr>"
    by (rule gnext_append)
       (use assms in \<open>simp_all add: check_query_def check_query_error_def route_def graph_edges_def\<close>)
  then show ?thesis by simp
qed

lemma graph_input_inv: "graph_inv (graph_input q d)"
  by (simp add: graph_input_eq graph_inv_def ids_wf_def)

lemma gnext_inv:
  assumes inv: "graph_inv p" and g: "gnext e p = Chunk p'"
  shows "graph_inv p'"
proof -
  obtain n ws d' ms' k' nx where pos: "pos p = Some n"
    and rn: "run_node e n (store (vals p)) (msgs (vals p)) = Inr (ws, d')"
    and am: "add_messages (msgs (vals p)) ws (fresh (vals p)) = (ms', k')"
    and rt: "route n ms' = Inr nx"
    and p': "p' = \<lparr>pos = nx, vals = \<lparr>msgs = ms', fresh = k', store = d'\<rparr>, step = Suc (step p)\<rparr>"
    using g by (rule gnext_ChunkE)
  have ne: "msgs (vals p) \<noteq> []" and wf: "ids_wf (fresh (vals p)) (msgs (vals p))"
    using inv by (simp_all add: graph_inv_def)
  have w: "(\<forall>m\<in>set ws. msg_id m = None) \<or> (\<exists>m. ws = [m] \<and> msg_id m = msg_id (last (msgs (vals p))))"
    using rn ne by (rule node_writes)
  have new: "ids_wf k' ms' \<and> ms' \<noteq> [] \<and> (\<forall>m. ws = [m] \<longrightarrow> is_ai (last ms') = is_ai m)"
    using wf ne w am by (rule add_messages_writes)
  have chk: "nx = Some CheckQuery \<Longrightarrow> tool_calls_of (last ms') \<noteq> []"
    using rt route_to_CheckQuery by blast
  have runq: "is_ai (last ms')" if "nx = Some RunQuery"
  proof -
    from that rt have n: "n = CheckQuery" by (simp add: route_to_RunQuery)
    with inv pos have "tool_calls_of (last (msgs (vals p))) \<noteq> []"
      by (simp add: graph_inv_def)
    with rn n ne obtain m where "ws = [m]" "is_ai m"
      using check_query_reviewed [of "msgs (vals p)"] by fastforce
    with new show ?thesis by simp
  qed
  show ?thesis
    using new chk runq by (simp add: p' graph_inv_def)
qed

lemma reach_example_after_list_tables:
  "reach (scenario (stub_llm 1 ''SELECT 1'')) (example_after_list_tables ''q'')"
proof -
  have g: "gnext (scenario (stub_llm 1 ''SELECT 1'')) (graph_input ''q'' ([] :: string list))
             = Chunk (example_after_list_tables ''q'')"
    by code_simp
  show ?thesis by (rule reach.advance [OF reach.start g])
qed

text \<open>C4. Every stream state the graph can reach, for every language model and
  database, has a non-empty log whose message ids are distinct and below the reducer's
  counter; \<^verbatim>\<open>check_query\<close> is only ever scheduled right after an AI message with tool
  calls, and \<^verbatim>\<open>run_query\<close> only right after an AI message.\<close>

theorem reach_graph_inv: "reach e p \<Longrightarrow> graph_inv p"
proof (induction rule: reach.induct)
  case (start q d)
  then show ?case by (rule graph_input_inv)
next
  case (advance p p')
  then show ?case by (blast intro: gnext_inv)
qed

text \<open>C5. The graph implements the orchestrator of the specification: every step of
  the stream is a transition of the specification's state machine between the phases of
  the scheduled nodes, the step into \<open>CheckQuery\<close> happens only when the latest
  message carries tool calls, and the step into \<open>Terminal\<close> only when it carries none.\<close>

theorem gnext_refines_spec:
  assumes "gnext e p = Chunk p'"
  shows "spec_step (abs_phase p) (abs_phase p')
         \<and> (abs_phase p' = PCheckQuery \<longrightarrow> tool_calls_of (last (msgs (vals p'))) \<noteq> [])
         \<and> (abs_phase p' = PTerminal \<longrightarrow> tool_calls_of (last (msgs (vals p'))) = [])"
proof -
  obtain n ws d' ms' k' nx where pos: "pos p = Some n"
    and rt: "route n ms' = Inr nx"
    and p': "p' = \<lparr>pos = nx, vals = \<lparr>msgs = ms', fresh = k', store = d'\<rparr>, step = Suc (step p)\<rparr>"
    using assms by (rule gnext_ChunkE)
  show ?thesis
    using pos rt
    by (cases n) (auto simp: p' abs_phase_def route_def should_continue_def graph_edges_def
                        spec_step.simps split: if_splits)
qed

text \<open>C3. A \<^verbatim>\<open>check_query\<close> step from a well-formed state is always followed by
  \<^verbatim>\<open>run_query\<close> and leaves the database alone. Either the reviewer's reply takes the
  place of the drafted message, at the same position and with the same id (so the log does
  not grow and the tool calls that \<^verbatim>\<open>run_query\<close> answers are the reviewed ones), or the
  review failed and an error message is appended with a fresh id.\<close>

theorem check_query_step:
  assumes inv: "graph_inv p" and pos: "pos p = Some CheckQuery" and g: "gnext e p = Chunk p'"
  shows "pos p' = Some RunQuery \<and> store (vals p') = store (vals p)
    \<and> ((\<exists>m. msgs (vals p') = butlast (msgs (vals p)) @ [m]
             \<and> msg_id m = msg_id (last (msgs (vals p))) \<and> is_ai m)
       \<or> (\<exists>ex. msgs (vals p') = msgs (vals p) @ [with_id (Some (fresh (vals p))) (check_query_error ex)]))"
proof -
  obtain n ws d' ms' k' nx where pos': "pos p = Some n"
    and rn: "run_node e n (store (vals p)) (msgs (vals p)) = Inr (ws, d')"
    and am: "add_messages (msgs (vals p)) ws (fresh (vals p)) = (ms', k')"
    and rt: "route n ms' = Inr nx"
    and p': "p' = \<lparr>pos = nx, vals = \<lparr>msgs = ms', fresh = k', store = d'\<rparr>, step = Suc (step p)\<rparr>"
    using g by (rule gnext_ChunkE)
  have n: "n = CheckQuery" using pos pos' by simp
  have ne: "msgs (vals p) \<noteq> []" and wf: "ids_wf (fresh (vals p)) (msgs (vals p))"
    and tc: "tool_calls_of (last (msgs (vals p))) \<noteq> []"
    using inv pos by (simp_all add: graph_inv_def)
  have nx: "nx = Some RunQuery"
    using rt n by (simp add: route_def graph_edges_def)
  have cq: "check_query e (store (vals p)) (msgs (vals p)) = Inr (ws, d')"
    using rn n by simp
  from check_query_reviewed [OF ne tc cq] have d': "d' = store (vals p)"
    and cases: "(\<exists>m. ws = [m] \<and> msg_id m = msg_id (last (msgs (vals p))) \<and> is_ai m)
                \<or> (\<exists>ex. ws = [check_query_error ex])"
    by auto
  from cases show ?thesis
  proof
    assume "\<exists>m. ws = [m] \<and> msg_id m = msg_id (last (msgs (vals p))) \<and> is_ai m"
    then obtain m where ws: "ws = [m]" and i: "msg_id m = msg_id (last (msgs (vals p)))"
      and ai: "is_ai m" by blast
    have "ms' = butlast (msgs (vals p)) @ [m]"
      using add_messages_replace_last [OF wf ne i] am ws by simp
    with i ai nx d' show ?thesis by (auto simp: p')
  next
    assume "\<exists>ex. ws = [check_query_error ex]"
    then obtain ex where ws: "ws = [check_query_error ex]" by blast
    have "ms' = msgs (vals p) @ [with_id (Some (fresh (vals p))) (check_query_error ex)]"
      using add_messages_append_fresh [OF wf] am ws by simp
    with nx d' show ?thesis by (auto simp: p')
  qed
qed

lemma gnext_step_Suc: "gnext e p = Chunk p' \<Longrightarrow> step p' = Suc (step p)"
  by (erule gnext_ChunkE) simp

theorem reach_graph_inv_witness:
  "reach (scenario (stub_llm 1 ''SELECT 1'')) (example_after_list_tables ''q'')
   \<and> graph_inv (example_after_list_tables ''q'')"
proof -
  have r: "reach (scenario (stub_llm 1 ''SELECT 1'')) (example_after_list_tables ''q'')"
    by (rule reach_example_after_list_tables)
  from reach_graph_inv [OF r] r show ?thesis by simp
qed

theorem gnext_refines_spec_witness:
  "gnext (scenario (stub_llm 1 ''SELECT 1'')) (graph_input ''q'' ([] :: string list)) = Chunk (example_after_list_tables ''q'')
   \<and> spec_step (abs_phase (graph_input ''q'' ([] :: string list))) (abs_phase (example_after_list_tables ''q''))
   \<and> abs_phase (example_after_list_tables ''q'') = PGetSchemaRequest"
proof -
  have g: "gnext (scenario (stub_llm 1 ''SELECT 1'')) (graph_input ''q'' ([] :: string list))
             = Chunk (example_after_list_tables ''q'')"
    by code_simp
  from gnext_refines_spec [OF g] g show ?thesis
    by (simp add: abs_phase_def example_after_list_tables_def)
qed

theorem check_query_step_witness:
  "graph_inv (example_review ''call_draft'') \<and> pos (example_review ''call_draft'') = Some CheckQuery
   \<and> gnext (scenario (stub_llm 1 ''SELECT 1'')) (example_review ''call_draft'')
       = Chunk (example_review ''call_checked'')
   \<and> pos (example_review ''call_checked'') = Some RunQuery"
proof -
  have h1: "graph_inv (example_review ''call_draft'')"
    by (simp add: graph_inv_def example_review_def ids_wf_def query_call_def)
  have h2: "pos (example_review ''call_draft'') = Some CheckQuery"
    by (simp add: example_review_def)
  have h3: "gnext (scenario (stub_llm 1 ''SELECT 1'')) (example_review ''call_draft'')
              = Chunk (example_review ''call_checked'')"
    by code_simp
  from check_query_step [OF h1 h2 h3] h1 h2 h3 show ?thesis by simp
qed

text \<open>One super-step keeps the log well-formed, for any nodes whose writes respect the
  log (the contract \<open>node_log\<close> of \<open>Nodes\<close> discharges).\<close>

lemma gnext_log:
  assumes nodes: "\<And>n d ms ws d'. run_node e n d ms = Inr (ws, d') \<Longrightarrow> ms \<noteq> [] \<Longrightarrow>
      calls_answered [] ms \<Longrightarrow> calls_answered (call_ids ms) ws
      \<and> (\<forall>m. ws = [m] \<longrightarrow> tool_call_id_of m = None \<or> m = last ms \<or> msg_id m = None)"
    and inv: "graph_inv p" and wf: "calls_answered [] (msgs (vals p))"
    and g: "gnext e p = Chunk p'"
  shows "calls_answered [] (msgs (vals p'))"
proof -
  obtain n ws d' ms' k' nx where run: "run_node e n (store (vals p)) (msgs (vals p)) = Inr (ws, d')"
    and am: "add_messages (msgs (vals p)) ws (fresh (vals p)) = (ms', k')"
    and p': "p' = \<lparr>pos = nx, vals = \<lparr>msgs = ms', fresh = k', store = d'\<rparr>, step = Suc (step p)\<rparr>"
    using g by (rule gnext_ChunkE) blast
  let ?ms = "msgs (vals p)" and ?k = "fresh (vals p)"
  have ne: "?ms \<noteq> []" and iw: "ids_wf ?k ?ms" using inv by (simp_all add: graph_inv_def)
  have nl: "calls_answered (call_ids ?ms) ws
            \<and> (\<forall>m. ws = [m] \<longrightarrow> tool_call_id_of m = None \<or> m = last ?ms \<or> msg_id m = None)"
    by (rule nodes [OF run ne wf])
  show ?thesis
  proof (cases "\<forall>m\<in>set ws. msg_id m = None")
    case True
    then have "ms' = ?ms @ fresh_ids ?k ws"
      using am add_messages_append_fresh [OF iw] by simp
    with wf nl p' show ?thesis by (simp add: calls_answered_append)
  next
    case False
    then obtain m where ws: "ws = [m]" and i: "msg_id m = msg_id (last ?ms)" and mi: "msg_id m \<noteq> None"
      using node_writes [OF run ne] by auto
    then have ms': "ms' = butlast ?ms @ [m]"
      using am add_messages_replace_last [OF iw ne i] by simp
    have "tool_call_id_of m = None \<or> m = last ?ms \<or> msg_id m = None" using nl ws by simp
    with mi have "tool_call_id_of m = None \<or> m = last ?ms" by (cases "msg_id m") simp_all
    then show ?thesis
    proof
      assume "tool_call_id_of m = None"
      then show ?thesis
        using calls_answered_butlast [OF wf ne] ms' p' by (simp add: calls_answered_append)
    next
      assume "m = last ?ms"
      then show ?thesis using wf ne ms' p' by simp
    qed
  qed
qed

text \<open>C25. Every reachable stream state has a well-formed message log: each tool message
  answers a tool call made earlier in the log, as the chat API requires of the history
  the nodes send to the model.  \<^verbatim>\<open>list_tables\<close> writes its call before its answer,
  the tool nodes answer the calls of the last message, and \<^verbatim>\<open>check_query\<close> only
  replaces the drafted message by one without tool answers or returns it unchanged.\<close>

theorem reach_log_wf: "reach e p \<Longrightarrow> log_wf (msgs (vals p))"
proof -
  assume "reach e p"
  then have "graph_inv p \<and> calls_answered [] (msgs (vals p))"
  proof (induction rule: reach.induct)
    case (start q d)
    then show ?case using graph_input_inv by (simp add: graph_input_eq)
  next
    case (advance p p')
    have "calls_answered [] (msgs (vals p'))"
      by (rule gnext_log [of e p p'], rule node_log) (use advance in simp_all)
    with advance gnext_inv show ?case by blast
  qed
  then show ?thesis by (simp add: log_wf_def)
qed

theorem reach_log_wf_witness:
  "reach (scenario (stub_llm 1 ''SELECT 1'')) (example_after_list_tables ''q'')
   \<and> log_wf (msgs (vals (example_after_list_tables ''q'')))"
proof -
  have r: "reach (scenario (stub_llm 1 ''SELECT 1'')) (example_after_list_tables ''q'')"
    by (rule reach_example_after_list_tables)
  from reach_log_wf [OF r] r show ?thesis by simp
qed

end
