(* ===== verification/Frontend.thy ===== *)
theory Frontend
  imports Graph
begin

text \<open>
  The question handler of the Streamlit page (src/app.py lines 233-271): it streams the
  graph's values from the input \<^verbatim>\<open>{"messages": [HumanMessage(content=question)]}\<close>,
  counts the chunks, stops with a warning after \<^verbatim>\<open>max_steps = 10\<close> of them, and takes
  as the answer the first chunk whose last message is an AI message with content, no tool
  calls, and no \<^verbatim>\<open>"Available tables:"\<close> in its text. An exception raised by the stream
  is shown with its text. The page's output is a list of UI elements; the handler also
  returns the stream state it stopped in (the generator is lazy: nothing after that state
  has been computed).
\<close>

section \<open>UI elements and loop exits\<close>

datatype ui =
    UISuccess string | UIWrite string | UIWarning string | UIError string
  | UIText string | UICode string

text \<open>How the \<^verbatim>\<open>for\<close> loop over the stream is left: an answer was found (\<^verbatim>\<open>break\<close>
  with \<^verbatim>\<open>answer\<close> set), the step limit was passed (\<^verbatim>\<open>break\<close> after the warning), the
  stream ended, or an exception escaped it.\<close>

datatype loop_exit = Found string | MaxStepsReached | StreamDone | Crashed exc

section \<open>The consumer loop\<close>

definition max_steps :: nat where
  "max_steps = 10"

text \<open>The test of line 250: \<^verbatim>\<open>isinstance(last_msg, AIMessage) and last_msg.content and
  not getattr(last_msg, "tool_calls", None) and "Available tables:" not in last_msg.content\<close>.\<close>

definition is_final_answer :: "message \<Rightarrow> bool" where
  "is_final_answer m \<longleftrightarrow>
     is_ai m \<and> msg_content m \<noteq> [] \<and> tool_calls_of m = []
     \<and> \<not> sublist ''Available tables:'' (msg_content m)"

text \<open>One iteration per chunk \<open>s\<close>: count it, stop past the limit, inspect its last
  message, otherwise pull the next chunk from the stream.\<close>

function consume :: "'d env \<Rightarrow> nat \<Rightarrow> nat \<Rightarrow> 'd pregel \<Rightarrow> loop_exit \<times> 'd pregel" where
  "consume e limit step_count s =
     (let step_count' = Suc step_count
      in if step_count' > limit then (MaxStepsReached, s)
         else if msgs (vals s) = [] then (Crashed (IndexError ''list index out of range''), s)
         else if is_final_answer (last (msgs (vals s)))
         then (Found (msg_content (last (msgs (vals s)))), s)
         else (case gnext e s of
                 StreamEnd \<Rightarrow> (StreamDone, s)
               | Raised ex \<Rightarrow> (Crashed ex, s)
               | Chunk s' \<Rightarrow> consume e limit step_count' s'))"
  by pat_completeness auto
termination
  by (relation "measure (\<lambda>(e, limit, step_count, s). limit - step_count)") auto

definition couldnt_answer :: string where
  "couldnt_answer =
     ''I couldn't generate an answer for your question. Please try rephrasing your question.''"

fun exit_ui :: "loop_exit \<Rightarrow> ui list" where
  "exit_ui (Found a) = [UISuccess ''Answer:'', UIWrite a]"
| "exit_ui MaxStepsReached =
     [UIWarning ''Maximum steps reached. Stopping execution.'', UIWarning couldnt_answer]"
| "exit_ui StreamDone = [UIWarning couldnt_answer]"
| "exit_ui (Crashed ex) =
     [UIError (''An error occurred: '' @ exc_str ex), UIText ''Detailed error:'',
      UICode (''Traceback (most recent call last):'' @ newline @ exc_str ex)]"

text \<open>Lines 233-268 for a non-empty question, and the whole form handler with the
  empty-question branch of line 270.\<close>

definition ask :: "'d env \<Rightarrow> string \<Rightarrow> 'd \<Rightarrow> ui list \<times> 'd pregel" where
  "ask e question d =
     (let (x, s) = consume e max_steps 0 (graph_input question d) in (exit_ui x, s))"

definition on_submit :: "'d env \<Rightarrow> string \<Rightarrow> 'd \<Rightarrow> ui list" where
  "on_submit e question d =
     (if question \<noteq> [] then fst (ask e question d) else [UIWarning ''Please enter a question.''])"

section \<open>The loop's contract\<close>

text \<open>The stream as a list: the first \<open>n\<close> chunks from \<open>s\<close> on, and what the stream
  yields after them (the next chunk, its end, or an exception).\<close>

fun stream_prefix :: "nat \<Rightarrow> 'd env \<Rightarrow> 'd pregel \<Rightarrow> 'd pregel list \<times> 'd pregel chunk" where
  "stream_prefix 0 e s = ([], Chunk s)"
| "stream_prefix (Suc n) e s =
     (case gnext e s of
        Chunk s' \<Rightarrow> (let (cs, r) = stream_prefix n e s' in (s # cs, r))
      | r \<Rightarrow> ([s], r))"

definition stops_loop :: "'d pregel \<Rightarrow> bool" where
  "stops_loop c \<longleftrightarrow> msgs (vals c) = [] \<or> is_final_answer (last (msgs (vals c)))"

text \<open>The loop's contract: among the first \<open>limit\<close> chunks, the first one with an answer
  (or an empty log) decides; without one, the stream's continuation does.\<close>

definition consume_spec :: "'d env \<Rightarrow> nat \<Rightarrow> 'd pregel \<Rightarrow> loop_exit \<times> 'd pregel" where
  "consume_spec e limit s =
     (let (cs, r) = stream_prefix limit e s
      in case find stops_loop cs of
           Some c \<Rightarrow>
             (if msgs (vals c) = [] then Crashed (IndexError ''list index out of range'')
              else Found (msg_content (last (msgs (vals c)))), c)
         | None \<Rightarrow>
             (case r of
                Chunk s' \<Rightarrow> (MaxStepsReached, s')
              | StreamEnd \<Rightarrow> (StreamDone, last cs)
              | Raised ex \<Rightarrow> (Crashed ex, last cs)))"

section \<open>Lemmas\<close>

declare consume.simps [simp del]

text \<open>One call of the loop either stops in the chunk it was given, or pulls the next
  chunk and continues there with the count raised by one.\<close>

lemma consume_cases:
  assumes "consume e limit step_count s = (x, s')"
  shows "s' = s \<or> (\<exists>s1. gnext e s = Chunk s1 \<and> Suc step_count \<le> limit
                       \<and> msgs (vals s) \<noteq> [] \<and> \<not> is_final_answer (last (msgs (vals s)))
                       \<and> consume e limit (Suc step_count) s1 = (x, s'))"
  using assms
  by (auto simp: consume.simps [of e limit step_count s] Let_def split: if_splits chunk.splits)

lemma consume_continue:
  "Suc c \<le> limit \<Longrightarrow> msgs (vals s) \<noteq> [] \<Longrightarrow> \<not> is_final_answer (last (msgs (vals s))) \<Longrightarrow>
   gnext e s = Chunk s' \<Longrightarrow> consume e limit c s = consume e limit (Suc c) s'"
  by (simp add: consume.simps [of e limit c s] Let_def)

lemma consume_found:
  "Suc c \<le> limit \<Longrightarrow> msgs (vals s) \<noteq> [] \<Longrightarrow> is_final_answer (last (msgs (vals s))) \<Longrightarrow>
   consume e limit c s = (Found (msg_content (last (msgs (vals s)))), s)"
  by (simp add: consume.simps [of e limit c s] Let_def)

lemma consume_step_bound:
  "step_count \<le> limit \<Longrightarrow> consume e limit step_count s = (x, s') \<Longrightarrow>
   step s' + step_count \<le> step s + limit"
proof (induction e limit step_count s arbitrary: x s' rule: consume.induct)
  case (1 e limit step_count s)
  from consume_cases [OF "1.prems"(2)] show ?case
  proof
    assume "s' = s"
    with "1.prems"(1) show ?thesis by simp
  next
    assume "\<exists>s1. gnext e s = Chunk s1 \<and> Suc step_count \<le> limit
                 \<and> msgs (vals s) \<noteq> [] \<and> \<not> is_final_answer (last (msgs (vals s)))
                 \<and> consume e limit (Suc step_count) s1 = (x, s')"
    then obtain s1 where g: "gnext e s = Chunk s1" and le: "Suc step_count \<le> limit"
      and guards: "msgs (vals s) \<noteq> [] \<and> \<not> is_final_answer (last (msgs (vals s)))"
      and c: "consume e limit (Suc step_count) s1 = (x, s')" by blast
    have "\<not> Suc step_count > limit" using le by simp
    moreover note guards
    ultimately have "step s' + Suc step_count \<le> step s1 + limit"
      using "1.IH" [OF refl _ _ _ g le c] by simp
    with gnext_step_Suc [OF g] show ?thesis by simp
  qed
qed

lemma consume_reach:
  "reach e s \<Longrightarrow> consume e limit step_count s = (x, s') \<Longrightarrow> reach e s'"
proof (induction e limit step_count s arbitrary: x s' rule: consume.induct)
  case (1 e limit step_count s)
  from consume_cases [OF "1.prems"(2)] show ?case
  proof
    assume "s' = s"
    with "1.prems"(1) show ?thesis by simp
  next
    assume "\<exists>s1. gnext e s = Chunk s1 \<and> Suc step_count \<le> limit
                 \<and> msgs (vals s) \<noteq> [] \<and> \<not> is_final_answer (last (msgs (vals s)))
                 \<and> consume e limit (Suc step_count) s1 = (x, s')"
    then obtain s1 where g: "gnext e s = Chunk s1" and le: "Suc step_count \<le> limit"
      and guards: "msgs (vals s) \<noteq> [] \<and> \<not> is_final_answer (last (msgs (vals s)))"
      and c: "consume e limit (Suc step_count) s1 = (x, s')" by blast
    have r: "reach e s1" using "1.prems"(1) g by (rule reach.advance)
    have "\<not> Suc step_count > limit" using le by simp
    moreover note guards
    ultimately show ?thesis
      using "1.IH" [OF refl _ _ _ g r c] by simp
  qed
qed

lemma consume_Found:
  "consume e limit step_count s = (Found a, s') \<Longrightarrow>
   msgs (vals s') \<noteq> [] \<and> is_final_answer (last (msgs (vals s'))) \<and> a = msg_content (last (msgs (vals s')))"
proof (induction e limit step_count s arbitrary: s' rule: consume.induct)
  case (1 e limit step_count s)
  then show ?case
    by (auto simp: consume.simps [of e limit step_count s] Let_def split: if_splits chunk.splits)
qed

lemma exit_ui_answer: "exit_ui x = [UISuccess ''Answer:'', UIWrite a] \<Longrightarrow> x = Found a"
  by (cases x) (auto simp: couldnt_answer_def)

lemma ask_consume:
  "consume e max_steps 0 (graph_input q d) = (x, s) \<Longrightarrow> ask e q d = (exit_ui x, s)"
  by (simp add: ask_def)

lemma ask_consume_step: "consume e max_steps 0 (graph_input q d) = (x, s) \<Longrightarrow> step s \<le> max_steps"
  using consume_step_bound [of 0 max_steps e "graph_input q d" x s] by (simp add: graph_input_eq)

text \<open>C1. For every language model, every database and every question, the handler
  stops after at most \<^verbatim>\<open>max_steps = 10\<close> node executions of the graph: the stream state
  it stops in has a super-step counter of at most 10. The handler is a total function
  (its loop terminates by the measure \<open>limit - step_count\<close>), so it always returns.\<close>

theorem ask_step_bound: "step (snd (ask e q d)) \<le> max_steps"
proof -
  obtain x s where c: "consume e max_steps 0 (graph_input q d) = (x, s)" by fastforce
  then show ?thesis by (simp add: ask_consume ask_consume_step)
qed

text \<open>C6. An answer shown on the page is the content of the last message of a stream
  state that the graph reaches within the step limit, and that message passes the
  answer test: an AI message with text, no tool calls, and no \<^verbatim>\<open>"Available tables:"\<close>.\<close>

theorem ask_answer_sound:
  assumes "ask e q d = ([UISuccess ''Answer:'', UIWrite a], s)"
  shows "reach e s \<and> step s \<le> max_steps \<and> is_final_answer (last (msgs (vals s)))
         \<and> a = msg_content (last (msgs (vals s)))"
proof -
  obtain x s' where c: "consume e max_steps 0 (graph_input q d) = (x, s')" by fastforce
  with assms have ui: "exit_ui x = [UISuccess ''Answer:'', UIWrite a]" and s: "s' = s"
    by (simp_all add: ask_consume)
  from ui have x: "x = Found a" by (rule exit_ui_answer)
  have "reach e (graph_input q d)" by (rule reach.start)
  then have "reach e s'" using c by (rule consume_reach)
  moreover have "step s' \<le> max_steps" using c by (rule ask_consume_step)
  moreover have "is_final_answer (last (msgs (vals s'))) \<and> a = msg_content (last (msgs (vals s')))"
    using consume_Found [OF c [unfolded x]] by blast
  ultimately show ?thesis using s by simp
qed

theorem ask_answer_sound_witness:
  "ask (scenario (stub_llm 1 ''SELECT id FROM invoices LIMIT 1000'')) ''How many invoices?'' [''customers'', ''invoices'']
     = ([UISuccess ''Answer:'', UIWrite ''There are 7 invoices.''],
        snd (ask (scenario (stub_llm 1 ''SELECT id FROM invoices LIMIT 1000'')) ''How many invoices?'' [''customers'', ''invoices'']))
   \<and> step (snd (ask (scenario (stub_llm 1 ''SELECT id FROM invoices LIMIT 1000'')) ''How many invoices?'' [''customers'', ''invoices''])) \<le> max_steps"
proof -
  let ?e = "scenario (stub_llm 1 ''SELECT id FROM invoices LIMIT 1000'')"
  have h: "ask ?e ''How many invoices?'' [''customers'', ''invoices'']
     = ([UISuccess ''Answer:'', UIWrite ''There are 7 invoices.''],
        snd (ask ?e ''How many invoices?'' [''customers'', ''invoices'']))"
    by code_simp
  from ask_answer_sound [OF h] h show ?thesis by simp
qed

lemma stream_prefix_stopped_nonempty:
  "stream_prefix n e s = (cs, r) \<Longrightarrow> (\<forall>s'. r \<noteq> Chunk s') \<Longrightarrow> cs \<noteq> []"
  by (cases n) (auto split: chunk.splits prod.splits)

text \<open>An exception raised by a super-step ends the loop in the chunk that was current.\<close>

lemma consume_raised:
  "Suc c \<le> limit \<Longrightarrow> msgs (vals s) \<noteq> [] \<Longrightarrow> \<not> is_final_answer (last (msgs (vals s))) \<Longrightarrow>
   gnext e s = Raised ex \<Longrightarrow> consume e limit c s = (Crashed ex, s)"
  by (simp add: consume.simps [of e limit c s] Let_def)

text \<open>When none of the chunks the loop may still inspect stops it, it gives up in the
  chunk after them, whatever that chunk holds.\<close>

lemma consume_prefix_exhausted:
  "stream_prefix n e s = (cs, Chunk s') \<Longrightarrow> \<forall>x\<in>set cs. \<not> stops_loop x \<Longrightarrow> c + n = limit \<Longrightarrow>
   consume e limit c s = (MaxStepsReached, s') \<and> step s' = step s + n"
proof (induction n arbitrary: c s cs)
  case 0
  then have "s' = s" and "c = limit" by auto
  then show ?case by (simp add: consume.simps [of e limit limit s])
next
  case (Suc n)
  then obtain s1 cs1 where g: "gnext e s = Chunk s1" and sp: "stream_prefix n e s1 = (cs1, Chunk s')"
    and cs: "cs = s # cs1"
    by (auto split: chunk.splits prod.splits)
  have "\<not> stops_loop s" using Suc.prems(2) cs by simp
  then have "consume e limit c s = consume e limit (Suc c) s1"
    using g Suc.prems(3) by (intro consume_continue) (simp_all add: stops_loop_def)
  moreover have "\<forall>x\<in>set cs1. \<not> stops_loop x" using Suc.prems(2) cs by simp
  then have "consume e limit (Suc c) s1 = (MaxStepsReached, s') \<and> step s' = step s1 + n"
    using Suc.IH [OF sp, of "Suc c"] Suc.prems(3) by simp
  ultimately show ?case using gnext_step_Suc [OF g] by simp
qed

text \<open>Two kinds of chunk never stop the loop: one whose last message is not an AI
  message, and one ending with the summary of \<^verbatim>\<open>list_tables\<close>.\<close>

lemma not_ai_not_answer: "\<not> is_ai m \<Longrightarrow> \<not> is_final_answer m"
  by (simp add: is_final_answer_def)

lemma available_tables_not_answer: "\<not> is_final_answer (AIMessage i (''Available tables: '' @ lt) tcs)"
proof -
  have "sublist ''Available tables:'' (''Available tables: '' @ lt)"
    by (rule prefix_imp_sublist) simp
  then show ?thesis by (simp add: is_final_answer_def)
qed

text \<open>The schema phase of every run whose model answers the schema call with a tool
  call: \<^verbatim>\<open>list_tables\<close>, \<^verbatim>\<open>call_get_schema\<close> and \<^verbatim>\<open>get_schema\<close> run, none of their
  chunks stops the loop, and the loop goes on with the fourth chunk, scheduled at
  \<^verbatim>\<open>generate_query\<close>, whose log ends with a tool message.\<close>

lemma schema_phase:
  assumes schema: "\<forall>ms. \<exists>c tcs. llm e ms [tool_name SchemaTool] = Inr (c, tcs) \<and> tcs \<noteq> []"
    and lim: "Suc (Suc (Suc 0)) \<le> limit"
  obtains ms k d3 where
    "consume e limit 0 (graph_input q d) =
       consume e limit (Suc (Suc (Suc 0)))
         \<lparr>pos = Some GenerateQuery, vals = \<lparr>msgs = ms, fresh = k, store = d3\<rparr>, step = 3\<rparr>"
    and "ids_wf k ms" and "ms \<noteq> []" and "\<not> is_ai (last ms)"
proof -
  define lt where "lt = list_tables_text (db e)"
  define ms1 where "ms1 = [HumanMessage (Some 0) q, AIMessage (Some 1) [] [list_tables_call],
                           ToolMessage (Some 2) lt ''abc123'', AIMessage (Some 3) (''Available tables: '' @ lt) []]"
  let ?s1 = "\<lparr>pos = Some CallGetSchema, vals = \<lparr>msgs = ms1, fresh = 4, store = d\<rparr>, step = 1\<rparr>"
  have g0: "gnext e (graph_input q d) = Chunk ?s1"
    unfolding ms1_def lt_def by (rule gnext_list_tables_step)
  obtain c tcs where sc: "llm e ms1 [tool_name SchemaTool] = Inr (c, tcs)" and tcs: "tcs \<noteq> []"
    using schema by blast
  have wf1: "ids_wf 4 ms1" by (simp add: ids_wf_def ms1_def)
  define ms2 where "ms2 = ms1 @ [AIMessage (Some 4) c tcs]"
  let ?s2 = "\<lparr>pos = Some GetSchema, vals = \<lparr>msgs = ms2, fresh = 5, store = d\<rparr>, step = 2\<rparr>"
  have g1: "gnext e ?s1 = Chunk ?s2"
    using gnext_call_get_schema_step [OF sc wf1, of d 1] by (simp add: ms2_def)
  have wf2: "ids_wf 5 ms2"
    using ids_wf_append_fresh [OF wf1, of "[AIMessage None c tcs]"] by (simp add: ms2_def)
  have ne2: "ms2 \<noteq> []" and last2: "last ms2 = AIMessage (Some 4) c tcs" by (simp_all add: ms2_def)
  obtain out d3 where rt: "run_tool_calls (db e) [SchemaTool] d tcs = (out, d3)"
    by (cases "run_tool_calls (db e) [SchemaTool] d tcs") auto
  have out: "map tool_call_id_of out = map (\<lambda>tc. Some (tc_id tc)) tcs"
    using run_tool_calls_ids [OF rt] by simp
  then have out_ne: "out \<noteq> []" using tcs by auto
  have last_out: "\<not> is_ai (last out)"
    using out out_ne tcs by (metis last_map tool_call_id_not_ai)
  define ms3 where "ms3 = ms2 @ fresh_ids 5 out"
  let ?s3 = "\<lparr>pos = Some GenerateQuery, vals = \<lparr>msgs = ms3, fresh = 5 + length out, store = d3\<rparr>,
              step = 3\<rparr>"
  have g2: "gnext e ?s2 = Chunk ?s3"
    unfolding ms3_def using gnext_get_schema_step [OF ne2 last2 wf2 rt, of 2] by simp
  have last3: "\<not> is_ai (last ms3)"
    using last_out out_ne by (simp add: ms3_def last_append_fresh_ids)
  have wf3: "ids_wf (5 + length out) ms3"
    using ids_wf_append_fresh [OF wf2] by (simp add: ms3_def)
  have nf1: "\<not> is_final_answer (last ms1)"
    using available_tables_not_answer [of "Some 3" lt "[]"] by (simp add: ms1_def)
  have "consume e limit 0 (graph_input q d) = consume e limit (Suc 0) ?s1"
    using g0 lim by (intro consume_continue) (simp_all add: graph_input_eq is_final_answer_def)
  also have "\<dots> = consume e limit (Suc (Suc 0)) ?s2"
    using g1 nf1 lim by (intro consume_continue) (simp_all add: ms1_def)
  also have "\<dots> = consume e limit (Suc (Suc (Suc 0))) ?s3"
    using g2 tcs ne2 lim by (intro consume_continue) (simp_all add: last2 is_final_answer_def)
  finally have run: "consume e limit 0 (graph_input q d) = consume e limit (Suc (Suc (Suc 0))) ?s3" .
  show ?thesis by (rule that [OF run wf3 _ last3]) (simp add: ms3_def ms2_def)
qed

text \<open>The chunk after the schema phase that stops the loop: a message of the
  \<^verbatim>\<open>generate_query\<close> or \<^verbatim>\<open>check_query\<close> node that passes the answer test is shown.\<close>

lemma consume_next_found:
  assumes "Suc (Suc c) \<le> limit" and "msgs (vals s) \<noteq> []" and "\<not> is_final_answer (last (msgs (vals s)))"
    and "gnext e s = Chunk s'" and "msgs (vals s') = ms @ [m]" and "is_final_answer m"
  shows "consume e limit c s = (Found (msg_content m), s')"
proof -
  have "consume e limit c s = consume e limit (Suc c) s'"
    using assms by (intro consume_continue) simp_all
  also have "\<dots> = (Found (msg_content m), s')"
    using assms consume_found [of "Suc c" limit s' e] by simp
  finally show ?thesis .
qed

text \<open>The nominal run with a model that answers at once: four super-steps, then the
  answer is found in the fifth chunk.\<close>

lemma direct_answer_run:
  assumes schema: "\<forall>ms. \<exists>c tcs. llm e ms [tool_name SchemaTool] = Inr (c, tcs) \<and> tcs \<noteq> []"
    and answer: "\<forall>ms. llm e ms [tool_name QueryTool] = Inr (a, [])"
    and final: "a \<noteq> []" "\<not> sublist ''Available tables:'' a"
  shows "\<exists>s. consume e max_steps 0 (graph_input q d) = (Found a, s) \<and> step s = 4"
proof -
  obtain ms k d3 where
    run: "consume e max_steps 0 (graph_input q d) =
            consume e max_steps (Suc (Suc (Suc 0)))
              \<lparr>pos = Some GenerateQuery, vals = \<lparr>msgs = ms, fresh = k, store = d3\<rparr>, step = 3\<rparr>"
    and wf: "ids_wf k ms" and ne: "ms \<noteq> []" and la: "\<not> is_ai (last ms)"
    using schema_phase [OF schema, of max_steps q d] by (auto simp: max_steps_def)
  define s4 where "s4 = \<lparr>pos = None, vals = \<lparr>msgs = ms @ [AIMessage (Some k) a []], fresh = Suc k,
                         store = d3\<rparr>, step = Suc 3\<rparr>"
  have g3: "gnext e \<lparr>pos = Some GenerateQuery, vals = \<lparr>msgs = ms, fresh = k, store = d3\<rparr>, step = 3\<rparr>
              = Chunk s4"
    unfolding s4_def using answer wf by (intro gnext_generate_answer_step) simp_all
  have "consume e max_steps (Suc (Suc (Suc 0)))
          \<lparr>pos = Some GenerateQuery, vals = \<lparr>msgs = ms, fresh = k, store = d3\<rparr>, step = 3\<rparr> = (Found a, s4)"
    using consume_next_found [OF _ _ _ g3, where ms = ms and m = "AIMessage (Some k) a []"] ne la final
    by (simp add: max_steps_def s4_def is_final_answer_def not_ai_not_answer)
  with run show ?thesis by (simp add: s4_def)
qed

text \<open>C24. The loop over the stream implements its contract: started with the count
  \<open>c\<close>, it returns what \<open>consume_spec\<close> gives for the first \<open>limit - c\<close> chunks, i.e. the
  first chunk with an answer among them, or else the stream's continuation (the chunk
  past the limit, the end of the stream, or the exception).\<close>

theorem consume_eq_spec: "consume e limit c s = consume_spec e (limit - c) s"
proof (induction e limit c s rule: consume.induct)
  case (1 e limit c s)
  show ?case
  proof (cases "limit - c")
    case 0
    then show ?thesis by (simp add: consume.simps [of e limit c s] consume_spec_def)
  next
    case (Suc n)
    then have lim: "\<not> Suc c > limit" by simp
    show ?thesis
    proof (cases "stops_loop s")
      case True
      with Suc lim show ?thesis
        by (auto simp: consume.simps [of e limit c s] consume_spec_def stops_loop_def Let_def
                 split: chunk.splits prod.splits)
    next
      case False
      show ?thesis
      proof (cases "gnext e s")
        case (Chunk s')
        obtain cs r where sp: "stream_prefix n e s' = (cs, r)" by (cases "stream_prefix n e s'")
        have n_eq: "limit - Suc c = n" using Suc by simp
        have ih: "consume e limit (Suc c) s' = consume_spec e n s'"
          using "1.IH" [OF refl] lim False Chunk n_eq by (simp add: stops_loop_def)
        have "cs = [] \<Longrightarrow> \<exists>s''. r = Chunk s''"
          using stream_prefix_stopped_nonempty [OF sp] by blast
        then show ?thesis
          using Suc lim False Chunk ih sp
          by (auto simp: consume.simps [of e limit c s] consume_spec_def stops_loop_def Let_def
                   split: chunk.splits option.splits)
      qed (use Suc lim False in \<open>auto simp: consume.simps [of e limit c s] consume_spec_def
                                       stops_loop_def Let_def\<close>)
    qed
  qed
qed

end
