(* ===== verification/Script.thy ===== *)
theory Script
  imports Frontend Config
begin

text \<open>
  One run of the Streamlit script \<^verbatim>\<open>src/app.py\<close> from top to bottom, as Streamlit
  re-executes it on every interaction: the page header, the credential checks of
  \<open>Config\<close>, the agent's initialisation (lines 79-219), cached in the session state so
  that it happens once per session, the question form with the handler of \<open>Frontend\<close>,
  and the sidebar. \<^verbatim>\<open>st.stop()\<close> ends the run. What survives a run is the
  session's agent, the process environment and the database's store; a run's output is
  the list of page elements it writes, in order. The Groq client is a parameter
  \<open>groq\<close> (from the key to the model), and so is the database connection \<open>connect\<close>,
  which \<^verbatim>\<open>SQLDatabase.from_uri\<close> applies to the URL that \<open>make_url\<close> parsed.
\<close>

section \<open>Page elements and the persistent state\<close>

datatype elem =
    PageTitle string | Note notice | Out ui | Markdown string | QueryForm
  | SideHeader string | SideWrite string

record 'd world =
  session_agent :: "'d env option"
  db_store :: 'd
  environ :: source

text \<open>A run's event: the form submitted with the text of the question, or no submission.\<close>

type_synonym event = "string option"

section \<open>The script\<close>

text \<open>The emoji of the title and of the success message, as UTF-8 bytes.\<close>

abbreviation file_cabinet :: string where
  "file_cabinet \<equiv> [CHR 0xF0, CHR 0x9F, CHR 0x97, CHR 0x84, CHR 0xEF, CHR 0xB8, CHR 0x8F]"

abbreviation check_mark :: string where
  "check_mark \<equiv> [CHR 0xE2, CHR 0x9C, CHR 0x85]"

definition page_header :: "elem list" where
  "page_header = [PageTitle (file_cabinet @ '' Natural Language to SQL Agent'')]"

text \<open>\<^verbatim>\<open>SQLDatabase.from_uri\<close>: parse the URL, then connect and reflect the schema.\<close>

definition from_uri :: "(url \<Rightarrow> exc + 'd database) \<Rightarrow> string \<Rightarrow> exc + 'd database" where
  "from_uri connect u = (case make_url u of Inl ex \<Rightarrow> Inl ex | Inr p \<Rightarrow> connect p)"

text \<open>The \<^verbatim>\<open>try\<close> block of lines 82-214: the model and the database, from which the
  graph of \<open>Graph\<close> is compiled; the environment \<open>env\<close> is that compiled agent.\<close>

definition init_agent ::
  "(string \<Rightarrow> message list \<Rightarrow> string list \<Rightarrow> exc + llm_reply) \<Rightarrow> (url \<Rightarrow> exc + 'd database)
   \<Rightarrow> string \<Rightarrow> string \<Rightarrow> exc + 'd env" where
  "init_agent groq connect u key =
     (case from_uri connect u of
        Inl ex \<Rightarrow> Inl ex
      | Inr dbase \<Rightarrow> Inr \<lparr>llm = groq key, db = dbase\<rparr>)"

definition init_ok :: "elem list" where
  "init_ok = [Out (UISuccess (check_mark @ '' SQL Agent initialized successfully!''))]"

definition init_failed :: "exc \<Rightarrow> elem list" where
  "init_failed ex = [Note (StError (cross_mark @ '' Failed to initialize SQL Agent: '' @ exc_str ex))]"

text \<open>Lines 80-81: the agent of the session, built only when the session has none.\<close>

definition session_init ::
  "(string \<Rightarrow> message list \<Rightarrow> string list \<Rightarrow> exc + llm_reply) \<Rightarrow> (url \<Rightarrow> exc + 'd database)
   \<Rightarrow> 'd env option \<Rightarrow> string \<Rightarrow> string \<Rightarrow> exc + 'd env \<times> elem list" where
  "session_init groq connect cached u key =
     (case cached of
        Some a \<Rightarrow> Inr (a, [])
      | None \<Rightarrow> (case init_agent groq connect u key of
                  Inl ex \<Rightarrow> Inl ex
                | Inr a \<Rightarrow> Inr (a, init_ok)))"

text \<open>Lines 233-271: the form's handler, with the store the stream left behind.\<close>

definition handle_event :: "'d env \<Rightarrow> event \<Rightarrow> 'd \<Rightarrow> elem list \<times> 'd" where
  "handle_event a ev d =
     (case ev of
        None \<Rightarrow> ([], d)
      | Some q \<Rightarrow>
          if q \<noteq> [] then (let (out, s) = ask a q d in (map Out out, store (vals s)))
          else ([Out (UIWarning ''Please enter a question.'')], d))"

text \<open>Lines 272-289.\<close>

definition sidebar :: "credentials \<Rightarrow> elem list" where
  "sidebar c =
     [SideHeader ''Database Info'',
      SideWrite (''**Database:** '' @ postgres_db c),
      SideWrite (''**Host:** '' @ postgres_host c),
      SideWrite (''**Port:** '' @ postgres_port c),
      SideHeader ''How to use'',
      SideWrite ''1. Enter your question in natural language'',
      SideWrite (''2. Click '' @ [CHR 0x27] @ ''Ask SQL Agent'' @ [CHR 0x27]),
      SideWrite ''3. The agent will convert your question to SQL and return the results'',
      SideHeader ''Example Questions'',
      SideWrite ''- Show me the top 5 customers by total purchases'',
      SideWrite ''- What are the most popular music genres?'',
      SideWrite ''- List all albums by a specific artist'',
      SideWrite ''- How many tracks are in each playlist?'']"

definition ask_prompt :: string where
  "ask_prompt = ''Ask questions about your database in natural language!''"

text \<open>One run of the script.\<close>

definition script_run ::
  "(string \<Rightarrow> message list \<Rightarrow> string list \<Rightarrow> exc + llm_reply) \<Rightarrow> (url \<Rightarrow> exc + 'd database)
   \<Rightarrow> source option \<Rightarrow> event \<Rightarrow> 'd world \<Rightarrow> elem list \<times> 'd world" where
  "script_run groq connect secrets ev w =
     (case configure secrets (environ w) of
        Inl ns \<Rightarrow> (page_header @ map Note ns, w)
      | Inr (u, env') \<Rightarrow>
          (let c = get_credentials secrets (environ w);
               w1 = w\<lparr>environ := env'\<rparr>
           in case session_init groq connect (session_agent w) u (groq_api_key c) of
                Inl ex \<Rightarrow> (page_header @ init_failed ex, w1)
              | Inr (a, out0) \<Rightarrow>
                  (let (out1, d') = handle_event a ev (db_store w)
                   in (page_header @ out0 @ [Markdown ask_prompt, QueryForm] @ out1 @ sidebar c,
                       w1\<lparr>session_agent := Some a, db_store := d'\<rparr>))))"

text \<open>A session: the runs for a sequence of events, each on the state the previous left.\<close>

fun script_runs ::
  "(string \<Rightarrow> message list \<Rightarrow> string list \<Rightarrow> exc + llm_reply) \<Rightarrow> (url \<Rightarrow> exc + 'd database)
   \<Rightarrow> source option \<Rightarrow> event list \<Rightarrow> 'd world \<Rightarrow> elem list list \<times> 'd world" where
  "script_runs groq connect secrets [] w = ([], w)"
| "script_runs groq connect secrets (ev # evs) w =
     (let (out, w1) = script_run groq connect secrets ev w;
          (outs, w2) = script_runs groq connect secrets evs w1
      in (out # outs, w2))"

section \<open>An example session\<close>

text \<open>A fresh session on the local environment of \<open>Config\<close>, no secrets file, and the
  store of the example database; and the URL that environment yields, as \<open>make_url\<close>
  parses it.\<close>

definition example_world :: "string list world" where
  "example_world =
     \<lparr>session_agent = None, db_store = [''customers'', ''invoices''], environ = example_env\<rparr>"

definition example_url :: url where
  "example_url =
     \<lparr>drivername = ''postgresql'', url_username = Some ''app+user'',
      url_password = Some ''p@ss+word'', url_host = Some ''db.example.com'',
      url_port = Some 5432, url_database = Some ''chinook'', url_query = None\<rparr>"

section \<open>Properties of the script\<close>

lemma configure_stable:
  assumes "configure secrets env = Inr (u, env')"
  shows "configure secrets env' = Inr (u, env') \<and> get_credentials secrets env' = get_credentials secrets env"
proof -
  let ?c = "get_credentials secrets env"
  have k: "groq_api_key ?c \<noteq> []" and e': "env' = env(''GROQ_API_KEY'' \<mapsto> groq_api_key ?c)"
    using assms by (auto simp: configure_def Let_def split: if_splits)
  have "env' = env" if "secrets = None"
  proof -
    have "env ''GROQ_API_KEY'' = Some (groq_api_key ?c)"
      using k that by (auto simp: get_credentials_def credentials_from_def py_get_def split: option.splits)
    then show ?thesis using e' by auto
  qed
  then have "get_credentials secrets env' = ?c"
    by (cases secrets) (auto simp: get_credentials_def)
  moreover have "env'(''GROQ_API_KEY'' \<mapsto> groq_api_key ?c) = env'" using e' by simp
  ultimately show ?thesis using assms by (simp add: configure_def Let_def split: if_splits)
qed

lemma script_run_cached:
  assumes "session_agent w = Some a"
  shows "script_run groq connect secrets ev w = script_run groq' connect' secrets ev w
         \<and> session_agent (snd (script_run groq connect secrets ev w)) = Some a"
  using assms
  by (auto simp: script_run_def session_init_def Let_def split: sum.splits prod.splits)

lemma failing_init_runs:
  assumes "session_agent w = None" and "configure secrets (environ w) = Inr (u, environ w)"
    and "from_uri connect u = Inl ex"
  shows "script_runs groq connect secrets evs w = (replicate (length evs) (page_header @ init_failed ex), w)"
proof (induction evs)
  case (Cons ev evs)
  have "script_run groq connect secrets ev w = (page_header @ init_failed ex, w)"
    using assms by (simp add: script_run_def session_init_def init_agent_def Let_def)
  with Cons.IH show ?case by simp
qed simp

lemma example_world_configure:
  "configure None (environ example_world) =
     Inr (postgres_url (get_credentials None example_env), example_env(''GROQ_API_KEY'' \<mapsto> ''gsk_test''))"
  by (simp add: example_world_def configure_def get_credentials_def credentials_from_def
                py_get_def example_env_def)

lemma example_make_url: "make_url (postgres_url (get_credentials None example_env)) = Inr example_url"
  unfolding example_url_def by code_simp


text \<open>C26: once a session holds an agent, no later run rebuilds it: every run of the
  session writes the same page and leaves the same state whatever the Groq client and
  the database connection would now produce, and the session keeps that agent. Changed
  credentials therefore take effect only in a new session.\<close>

theorem session_agent_cached:
  "session_agent w = Some a \<Longrightarrow>
     script_runs groq connect secrets evs w = script_runs groq' connect' secrets evs w
     \<and> session_agent (snd (script_runs groq connect secrets evs w)) = Some a"
proof (induction evs arbitrary: w)
  case (Cons ev evs)
  obtain out w1 where r: "script_run groq connect secrets ev w = (out, w1)"
    by (cases "script_run groq connect secrets ev w")
  with script_run_cached [OF Cons.prems, of groq connect secrets ev groq' connect']
  have r': "script_run groq' connect' secrets ev w = (out, w1)" and a1: "session_agent w1 = Some a"
    by auto
  from Cons.IH [OF a1]
  have eq: "script_runs groq connect secrets evs w1 = script_runs groq' connect' secrets evs w1"
    and ag: "session_agent (snd (script_runs groq connect secrets evs w1)) = Some a" by auto
  show ?case using r r' eq ag by (simp add: split_def Let_def)
qed simp

theorem session_agent_cached_witness:
  "session_agent (example_world\<lparr>session_agent := Some \<lparr>llm = direct_llm ''7'', db = example_db\<rparr>\<rparr>)
     = Some \<lparr>llm = direct_llm ''7'', db = example_db\<rparr> \<and>
   script_runs (\<lambda>k. direct_llm ''7'') (\<lambda>_. Inr example_db) None [Some ''How many invoices?'', None]
     (example_world\<lparr>session_agent := Some \<lparr>llm = direct_llm ''7'', db = example_db\<rparr>\<rparr>) =
   script_runs (\<lambda>k ms ts. Inl (APIError ''Invalid API Key'')) (\<lambda>_. Inl (OperationalError ''connection refused''))
     None [Some ''How many invoices?'', None]
     (example_world\<lparr>session_agent := Some \<lparr>llm = direct_llm ''7'', db = example_db\<rparr>\<rparr>) \<and>
   session_agent (snd (script_runs (\<lambda>k. direct_llm ''7'') (\<lambda>_. Inr example_db) None
     [Some ''How many invoices?'', None]
     (example_world\<lparr>session_agent := Some \<lparr>llm = direct_llm ''7'', db = example_db\<rparr>\<rparr>)))
     = Some \<lparr>llm = direct_llm ''7'', db = example_db\<rparr>"
  using session_agent_cached [of "example_world\<lparr>session_agent := Some \<lparr>llm = direct_llm ''7'', db = example_db\<rparr>\<rparr>"
          "\<lparr>llm = direct_llm ''7'', db = example_db\<rparr>" "\<lambda>k. direct_llm ''7''" "\<lambda>_. Inr example_db" None
          "[Some ''How many invoices?'', None]" "\<lambda>k ms ts. Inl (APIError ''Invalid API Key'')"
          "\<lambda>_. Inl (OperationalError ''connection refused'')"]
  by (simp del: script_runs.simps) metis

text \<open>C27: when the session has no agent and the database cannot be reached, the
  failed initialisation is not cached: the first run exports the Groq key, and every
  run of the session, the first included, writes the page header and the error
  \<^verbatim>\<open>Failed to initialize SQL Agent\<close> and stops there, before the form.\<close>

theorem unreachable_database_stops_every_run:
  assumes "session_agent w = None" and "configure secrets (environ w) = Inr (u, env')"
    and "from_uri connect u = Inl ex"
  shows "script_runs groq connect secrets (ev # evs) w =
           (replicate (Suc (length evs)) (page_header @ init_failed ex), w\<lparr>environ := env'\<rparr>)"
proof -
  have run: "script_run groq connect secrets ev w = (page_header @ init_failed ex, w\<lparr>environ := env'\<rparr>)"
    using assms by (simp add: script_run_def session_init_def init_agent_def Let_def)
  have "configure secrets env' = Inr (u, env')" using configure_stable [OF assms(2)] by simp
  then have "script_runs groq connect secrets evs (w\<lparr>environ := env'\<rparr>) =
               (replicate (length evs) (page_header @ init_failed ex), w\<lparr>environ := env'\<rparr>)"
    using assms by (intro failing_init_runs) simp_all
  with run show ?thesis by simp
qed

theorem unreachable_database_stops_every_run_witness:
  "script_runs (\<lambda>k. direct_llm ''7'') (\<lambda>_. Inl (OperationalError ''connection refused'')) None
     [Some ''How many invoices?'', None, Some ''How many invoices?''] example_world =
   (replicate 3 (page_header @ init_failed (OperationalError ''connection refused'')),
    example_world\<lparr>environ := example_env(''GROQ_API_KEY'' \<mapsto> ''gsk_test'')\<rparr>)"
proof -
  have "from_uri (\<lambda>_. Inl (OperationalError ''connection refused''))
          (postgres_url (get_credentials None example_env)) =
        (Inl (OperationalError ''connection refused'') :: exc + string list database)"
    by (simp add: from_uri_def example_make_url)
  then show ?thesis
    using unreachable_database_stops_every_run [OF _ example_world_configure,
            of "\<lambda>_. Inl (OperationalError ''connection refused'')" "OperationalError ''connection refused''"
               "\<lambda>k. direct_llm ''7''" "Some ''How many invoices?''" "[None, Some ''How many invoices?'']"]
    by (simp add: example_world_def numeral_3_eq_3)
qed

text \<open>C28: the first question of a session, end to end. With valid credentials, a
  reachable database and a model that asks for some schema and then answers \<open>a\<close>, the
  first run that submits a non-empty question writes the header, the initialisation
  success, the prompt and the form, the answer, and the sidebar with the configured
  database, in this order, and caches the agent built from the configured key.\<close>

theorem first_question_answered:
  assumes fresh: "session_agent w = None" and cfg: "configure secrets (environ w) = Inr (u, env')"
    and conn: "from_uri connect u = Inr dbase"
    and schema: "\<forall>ms. \<exists>c tcs. groq (groq_api_key (get_credentials secrets (environ w))) ms
                                [tool_name SchemaTool] = Inr (c, tcs) \<and> tcs \<noteq> []"
    and answer: "\<forall>ms. groq (groq_api_key (get_credentials secrets (environ w))) ms
                        [tool_name QueryTool] = Inr (a, [])"
    and final: "a \<noteq> []" "\<not> sublist ''Available tables:'' a"
    and q: "q \<noteq> []"
  shows "\<exists>w'. script_run groq connect secrets (Some q) w =
           (page_header @ init_ok @ [Markdown ask_prompt, QueryForm, Out (UISuccess ''Answer:''),
              Out (UIWrite a)] @ sidebar (get_credentials secrets (environ w)), w')
         \<and> session_agent w' = Some \<lparr>llm = groq (groq_api_key (get_credentials secrets (environ w))),
                                   db = dbase\<rparr>
         \<and> environ w' = env'"
proof -
  let ?e = "\<lparr>llm = groq (groq_api_key (get_credentials secrets (environ w))), db = dbase\<rparr>"
  have sc: "\<forall>ms. \<exists>c tcs. llm ?e ms [tool_name SchemaTool] = Inr (c, tcs) \<and> tcs \<noteq> []"
    using schema by simp
  have an: "\<forall>ms. llm ?e ms [tool_name QueryTool] = Inr (a, [])" using answer by simp
  obtain s where "consume ?e max_steps 0 (graph_input q (db_store w)) = (Found a, s)"
    using direct_answer_run [OF sc an final] by blast
  then have "handle_event ?e (Some q) (db_store w) =
               ([Out (UISuccess ''Answer:''), Out (UIWrite a)], store (vals s))"
    using q by (simp add: handle_event_def ask_def)
  then show ?thesis using fresh cfg conn
    by (simp add: script_run_def session_init_def init_agent_def Let_def)
qed

theorem first_question_answered_witness:
  "\<exists>w'. script_run (\<lambda>k. direct_llm ''There are 7 invoices.'') (\<lambda>_. Inr example_db) None
          (Some ''How many invoices?'') example_world =
        (page_header @ init_ok @ [Markdown ask_prompt, QueryForm, Out (UISuccess ''Answer:''),
           Out (UIWrite ''There are 7 invoices.'')] @ sidebar (get_credentials None example_env), w')
      \<and> session_agent w' = Some \<lparr>llm = direct_llm ''There are 7 invoices.'', db = example_db\<rparr>
      \<and> environ w' = example_env(''GROQ_API_KEY'' \<mapsto> ''gsk_test'')"
proof -
  have conn: "from_uri (\<lambda>_. Inr example_db) (postgres_url (get_credentials None example_env)) =
                Inr (example_db :: string list database)"
    by (simp add: from_uri_def example_make_url)
  have "\<not> sublist ''Available tables:'' ''There are 7 invoices.''" by code_simp
  then show ?thesis
    using first_question_answered [OF _ example_world_configure conn,
            of "\<lambda>k. direct_llm ''There are 7 invoices.''" "''There are 7 invoices.''" "''How many invoices?''"]
    by (simp add: example_world_def direct_llm_def get_credentials_def)
qed

end
