(* ===== verification/Download.thy ===== *)
theory Download
  imports Prelude
begin

text \<open>
  The stand-alone script \<^verbatim>\<open>src/chinook_db.py\<close>: one HTTP GET of the Chinook SQLite
  file, written to \<^verbatim>\<open>Chinook.db\<close> in the working directory when the status is 200,
  and a line on standard output either way. \<^verbatim>\<open>requests.get\<close> is a parameter \<open>get\<close>
  that returns the response or raises; an exception it raises is not caught, so the
  script ends with it and has written nothing. The host the script runs on is its
  files (name to bytes) and what it printed.
\<close>

record response =
  status_code :: int
  content :: string

record host =
  files :: "string \<rightharpoonup> string"
  stdout :: "string list"

definition chinook_url :: string where
  "chinook_url = ''https://storage.googleapis.com/benchmarks-artifacts/chinook/Chinook.db''"

text \<open>Lines 3-10. \<open>open(..., 'wb')\<close> truncates, so the file's old content is replaced.\<close>

definition download :: "(string \<Rightarrow> exc + response) \<Rightarrow> host \<Rightarrow> exc + host" where
  "download get h =
     (case get chinook_url of
        Inl ex \<Rightarrow> Inl ex
      | Inr r \<Rightarrow>
          if status_code r = 200 then
            Inr (h\<lparr>files := (files h)(''Chinook.db'' \<mapsto> content r),
                   stdout := stdout h @ [''File downloaded and saved as Chinook.db'']\<rparr>)
          else
            Inr (h\<lparr>stdout := stdout h @
                   [''Failed to download the file. Status code: '' @ py_str_int (status_code r)]\<rparr>))"

text \<open>An empty working directory, and a server that answers with status \<open>s\<close> and body \<open>b\<close>.\<close>

definition empty_host :: host where
  "empty_host = \<lparr>files = Map.empty, stdout = []\<rparr>"

definition serve :: "int \<Rightarrow> string \<Rightarrow> string \<Rightarrow> exc + response" where
  "serve s b u = Inr \<lparr>status_code = s, content = b\<rparr>"

text \<open>C29: the script touches no file but \<^verbatim>\<open>Chinook.db\<close>, and changes that file only
  when the server answered the Chinook URL with status 200, to exactly the body it sent;
  every completed run prints one line.\<close>

theorem download_writes_only_ok_body:
  assumes "download get h = Inr h'"
  shows "(\<forall>f. f \<noteq> ''Chinook.db'' \<longrightarrow> files h' f = files h f)
         \<and> (files h' ''Chinook.db'' \<noteq> files h ''Chinook.db'' \<longrightarrow>
              (\<exists>r. get chinook_url = Inr r \<and> status_code r = 200
                   \<and> files h' ''Chinook.db'' = Some (content r)))
         \<and> length (stdout h') = Suc (length (stdout h))"
  using assms by (auto simp: download_def split: sum.splits if_splits)

theorem download_writes_only_ok_body_witness:
  "download (serve 200 ''SQLite format 3'') empty_host =
     Inr \<lparr>files = [''Chinook.db'' \<mapsto> ''SQLite format 3''],
          stdout = [''File downloaded and saved as Chinook.db'']\<rparr>
   \<and> (\<exists>r. serve 200 ''SQLite format 3'' chinook_url = Inr r \<and> status_code r = 200
        \<and> content r = ''SQLite format 3'')"
proof -
  have d: "download (serve 200 ''SQLite format 3'') empty_host =
     Inr \<lparr>files = [''Chinook.db'' \<mapsto> ''SQLite format 3''],
          stdout = [''File downloaded and saved as Chinook.db'']\<rparr>"
    by (simp add: download_def serve_def empty_host_def)
  then show ?thesis using download_writes_only_ok_body [OF d] by (auto simp: empty_host_def)
qed

end
