(* ===== verification/Spec2Isabelle.thy ===== *)
theory Spec2Isabelle
  imports Prelude Messages SqlTools Nodes Graph Frontend Config Script Download
begin

text \<open>
  \<^bold>\<open>A verified model of the natural-language-to-SQL agent.\<close>

  The repository is a Streamlit page (\<^verbatim>\<open>src/app.py\<close>) around a LangGraph state graph,
  and a download script (\<^verbatim>\<open>src/chinook_db.py\<close>). A question typed into the page is
  streamed through a graph of six nodes that share one state, a log of messages:
  \<^verbatim>\<open>list_tables\<close> lists the database's tables without asking the model,
  \<^verbatim>\<open>call_get_schema\<close> asks the model which tables to describe, \<^verbatim>\<open>get_schema\<close> runs that
  tool call, \<^verbatim>\<open>generate_query\<close> asks the model for a query or an answer,
  \<^verbatim>\<open>should_continue\<close> routes to \<^verbatim>\<open>check_query\<close> (a second model call that reviews the
  query and takes over the drafted message's id) or to \<^verbatim>\<open>END\<close>, and \<^verbatim>\<open>run_query\<close>
  executes the reviewed query and loops back to \<^verbatim>\<open>generate_query\<close>. The page consumes
  the stream, stops after ten chunks, and shows the first chunk whose last message looks
  like an answer.

  \<^bold>\<open>Theories.\<close>
  \<^item> \<open>Prelude\<close>: the Python built-ins the program relies on (\<open>str.join\<close>,
    \<open>str.split\<close>, \<open>str.strip\<close>, slicing, \<open>str\<close> and \<open>repr\<close>), the exceptions that
    reach a handler (\<open>exc\<close>), and shared list lemmas.
  \<^item> \<open>Messages\<close>: LangChain's messages and tool calls (\<open>message\<close>, \<open>tool_call\<close>), and
    LangGraph's \<^verbatim>\<open>add_messages\<close> reducer (\<open>add_messages\<close>), which gives fresh ids to
    messages without one, replaces a message whose id is already in the log, and appends the
    rest. Ids are drawn from an explicit counter standing for \<^verbatim>\<open>uuid4\<close>.
    Lemmas: appending with fresh ids, replacing the last message by id, and the
    well-formedness \<open>ids_wf\<close> (distinct ids below the counter) that both keep (C8).
  \<^item> \<open>SqlTools\<close>: the database as a record of operations over an abstract store
    (\<open>database\<close>: reflected table names and descriptions, statement execution that commits
    or rolls back), \<^verbatim>\<open>SQLDatabase.run_no_throw\<close> with \<^verbatim>\<open>truncate_word\<close>,
    \<^verbatim>\<open>get_table_info_no_throw\<close>, the three tools, and \<^verbatim>\<open>ToolNode\<close> (\<open>tool_node\<close>).
    Lemmas: tool messages answer calls in order by id (C7); an unknown table makes the
    whole schema call an error (C9); the schema tool describes exactly the named tables
    (C10); truncation respects its limit from 3 on (C11). It also defines the log's
    well-formedness \<open>log_wf\<close> (every tool message answers a tool call made earlier in
    the log, \<open>calls_answered\<close>) and shows that \<^verbatim>\<open>ToolNode\<close>'s answers respect it.
  \<^item> \<open>Nodes\<close>: the six nodes of src/app.py lines 94-195, with the model as a parameter
    \<open>llm\<close> of the environment \<open>env\<close> (messages and bound tool names to an exception or a
    reply); the prompts as the source's f-strings. Lemmas: what each node writes
    (\<open>node_writes\<close>), the schema fallback
    describes the first three tables (C15), the reviewer's pass-through leaves the log as it
    was (C16).
  \<^item> \<open>Graph\<close>: the graph's edges (lines 206-212), one Pregel super-step \<open>gnext\<close> (run the
    scheduled node, merge through the reducer, route), the input \<open>graph_input\<close>, the
    reachable states \<open>reach\<close> (an inductive predicate), and the orchestrator of the
    specification (section 4.5) as the step relation \<open>spec_step\<close> over phases.
    Lemmas: the invariant \<open>graph_inv\<close> of all reachable states (C4), refinement of the
    specification's orchestrator (C5), the reviewer step keeps the drafted message's
    position and id (C3). \<open>gnext_log\<close> states that a super-step keeps the log
    well-formed for any nodes meeting the contract \<open>node_log\<close> of \<open>Nodes\<close>, which the six
    nodes discharge; every reachable log is therefore well-formed (C25).
  \<^item> \<open>Frontend\<close>: the page's loop over the stream (lines 233-271) as \<open>consume\<close>, a
    \<^theory_text>\<open>function\<close> whose termination is proved by the measure \<open>limit - step_count\<close>,
    and \<open>ask\<close>, which returns the page's output and the stream state it stopped in.
    The loop's contract \<open>consume_spec\<close> reads the stream as a list
    (\<open>stream_prefix\<close>): the first chunk with an answer among the first \<open>limit\<close> decides.
    Lemmas: the loop equals its contract (C24); at most ten node executions for every
    model and database (C1); a shown
    answer is the last message of a reachable state (C6).
  \<^item> \<open>Config\<close>: the start-up code of src/app.py lines 22-77: \<^verbatim>\<open>get_credentials\<close>
    (\<open>get_credentials\<close>, with the secrets file as an optional source whose absence makes
    the first read raise), the two credential checks that stop the script
    (\<open>configure\<close>, returning the notices shown or the URL and the updated environment),
    and \<open>postgres_url\<close>. The library code it relies on is modelled from its definition:
    \<^verbatim>\<open>urllib.parse.quote_plus\<close>, \<^verbatim>\<open>unquote\<close>, \<^verbatim>\<open>unquote_plus\<close>, and SQLAlchemy's
    \<^verbatim>\<open>make_url\<close> (its regular expression with the backtracking resolved), which
    \<^verbatim>\<open>SQLDatabase.from_uri\<close> applies to the URL. Lemmas: \<open>unquote_plus\<close> inverts
    \<open>quote_plus\<close>; the parser recovers every field of \<open>postgres_url\<close> for plain
    host names, but user name and password with spaces turned into \<open>+\<close> (C18, C19); what
    the checks accept and reject (C20, C21); a secrets file shadows the environment
    (C22).
  \<^item> \<open>Script\<close>: one Streamlit rerun of the whole of src/app.py (\<open>script_run\<close>):
    the page header (lines 17-19), \<open>configure\<close> of \<open>Config\<close> (with \<^verbatim>\<open>st.stop()\<close> as
    an early return), the agent's initialisation of lines 79-92 and 214-219
    (\<open>init_agent\<close>: \<^verbatim>\<open>ChatGroq\<close> as the parameter \<open>groq\<close> from the key to a model,
    \<^verbatim>\<open>SQLDatabase.from_uri\<close> as \<open>from_uri\<close>, which runs \<open>make_url\<close> and then the
    parameter \<open>connect\<close>), cached in the session state (\<open>session_init\<close>), the prompt
    and the form with the handler of \<open>Frontend\<close> (\<open>handle_event\<close>), and the sidebar.
    The state that survives a rerun is the record \<open>world\<close> (session agent, the
    database's store, \<^verbatim>\<open>os.environ\<close>); the output is the list of page elements
    \<open>elem\<close>; a session is \<open>script_runs\<close> over the events of its reruns (a submitted
    question or none). Lemmas: a cached agent makes every later run independent of
    the Groq client and the database connection (C26); a failed initialisation is
    retried on, and stops, every run (C27); the first question of a session is
    answered end to end, page element by page element (C28), by the liveness lemma of
    \<open>Frontend\<close>.
  \<^item> \<open>Download\<close>: src/chinook_db.py as \<open>download\<close>, with \<^verbatim>\<open>requests.get\<close> a
    parameter and the host's files and standard output as the state. Lemma: only
    \<^verbatim>\<open>Chinook.db\<close> is written, and only with the body of a 200 response (C29).
  \<^item> This theory: the whole run of a question, from the input chunk through the
    graph to the page's output, for every database, question and model of a given
    behaviour. The runs are symbolic executions of the stream, one super-step lemma per
    node (\<open>gnext_append\<close> and its instances in \<open>Graph\<close>), composed through the
    schema phase that every run starts with (\<open>schema_phase\<close> in \<open>Frontend\<close>): a model
    that asks for a schema and then answers gets its answer shown after four node
    executions (C23); the degraded paths end the session (C12, C13, C14); and an
    answer of the tenth node execution is dropped (C2). Each of these has a witness
    evaluated by \<open>code_simp\<close> on the example database of \<open>SqlTools\<close> with a stub model
    (\<open>stub_llm\<close>, \<open>failing_on\<close> and \<open>direct_llm\<close> of \<open>Nodes\<close>, \<open>reviewer_down_llm\<close> here).

  \<^bold>\<open>Bounds and fuel.\<close> The consumer's bound is the source's \<open>max_steps = 10\<close>; the
  loop is total without fuel. The stream itself is read through \<open>stream_prefix\<close>,
  which takes the number of chunks as an argument; the contract of the loop (C24)
  and the dropped answer (C2) read the first \<open>max_steps\<close> chunks.

  \<^bold>\<open>Findings the theorems show.\<close>
  \<^item> The step counter counts the input chunk, and the check against \<open>max_steps\<close> comes
    before the chunk is inspected: the answer the graph produces in its tenth node
    execution is computed and then dropped, for every model (C2); a model that needs
    two queries is such a model (the witness of C2).
  \<^item> No statement guard exists and no row cap is applied: \<^verbatim>\<open>run_query\<close> hands any
    query text, a \<^verbatim>\<open>DROP TABLE\<close> included, to the database unchanged, keeps the store
    the statement committed, and prints every row returned (C17).
  \<^item> Degraded paths end the session with their text shown as the answer: the schema
    fallback (C12) and the reviewer's error message (C13); a second failure of the model
    in \<^verbatim>\<open>generate_query\<close> crashes the page's handler (C14).
  \<^item> A single unknown table name makes the whole schema description an error (C9).
  \<^item> A password (or user name) containing a space reaches the database driver with
    a \<open>+\<close> in its place: \<^verbatim>\<open>quote_plus\<close> encodes the space as \<open>+\<close> and SQLAlchemy decodes
    with \<^verbatim>\<open>unquote\<close> (C19). Settings are not merged per key: with a secrets file,
    the environment is ignored (C22).
  \<^item> The agent is built once per session: credentials changed after it was built take
    no effect until a new session (C26). A database that cannot be reached is retried
    on every rerun (C27), where the specification makes a connection error fatal to
    session start with no retry.
  \<^item> The SQLite file that src/chinook_db.py downloads (C29) is never opened by the
    application, which connects to PostgreSQL.

  \<^bold>\<open>Not modelled.\<close> The rendering of the page elements, \<^verbatim>\<open>st.set_page_config\<close>,
  the spinners and the text area's options (presentation); \<^verbatim>\<open>load_dotenv\<close> (the
  environment is taken as given); the toolkit and the tool lookup of lines 90-97
  (always succeed: the toolkit always has both tools); the query string of a URL (kept
  raw, never produced by \<open>postgres_url\<close>); Unicode: strings are byte strings after
  UTF-8 encoding, so \<open>quote\<close> and \<open>unquote\<close> work on bytes and decoding is the
  identity; failures of the file write in the download script; the model's behaviour
  itself (a parameter); SQL semantics (the database's \<open>db_execute\<close> is a parameter);
  LangGraph's recursion limit of 25 (never reached: the consumer stops after 10);
  concurrency inside \<^verbatim>\<open>ToolNode\<close> (calls are run in order).
\<close>

section \<open>Scenario data\<close>

definition question :: string where
  "question = ''How many invoices are there?''"

definition invoice_query :: string where
  "invoice_query = ''SELECT id FROM invoices LIMIT 1000''"

definition initial_store :: "string list" where
  "initial_store = [''customers'', ''invoices'']"

text \<open>A model whose reviewer call fails: it asks for the schema of both tables, drafts
  \<open>invoice_query\<close> whenever it is asked to generate, and raises on the review.\<close>

definition reviewer_down_llm :: "message list \<Rightarrow> string list \<Rightarrow> exc + llm_reply" where
  "reviewer_down_llm ms tools =
     (if tools = [tool_name SchemaTool] then Inr ([], [schema_call])
      else if ms \<noteq> [] \<and> hd ms = SystemMessage None (check_query_system_prompt ''postgresql'')
      then Inl (APIError ''Rate limit reached'')
      else Inr ([], [query_call ''call_draft'' invoice_query]))"

section \<open>End-to-end properties\<close>

text \<open>C2. The answer of the tenth node execution is never shown. The page counts the
  input chunk as its first step and checks the limit before it inspects a chunk, so
  for every model, database and question whose first ten chunks (the input and nine
  node executions) hold no answer, the handler stops in the eleventh chunk, produced
  by the tenth node execution, with \<^verbatim>\<open>"Maximum steps reached"\<close>, whatever that chunk
  holds, the answer included.\<close>

theorem tenth_execution_answer_dropped:
  assumes "stream_prefix max_steps e (graph_input q d) = (cs, Chunk s)"
    and "\<forall>x\<in>set cs. \<not> stops_loop x"
  shows "ask e q d = (exit_ui MaxStepsReached, s) \<and> step s = max_steps"
proof -
  have "consume e max_steps 0 (graph_input q d) = (MaxStepsReached, s) \<and> step s = 0 + max_steps"
    using consume_prefix_exhausted [OF assms, of 0] by (simp add: graph_input_eq)
  then show ?thesis by (simp add: ask_def)
qed

theorem tenth_execution_answer_dropped_witness:
  "\<exists>cs s. stream_prefix max_steps (scenario (stub_llm 2 invoice_query)) (graph_input question initial_store)
            = (cs, Chunk s)
     \<and> (\<forall>x\<in>set cs. \<not> stops_loop x) \<and> is_final_answer (last (msgs (vals s)))
     \<and> ask (scenario (stub_llm 2 invoice_query)) question initial_store = (exit_ui MaxStepsReached, s)"
proof -
  let ?e = "scenario (stub_llm 2 invoice_query)"
  obtain cs r where sp: "stream_prefix max_steps ?e (graph_input question initial_store) = (cs, r)"
    by fastforce
  have "case stream_prefix max_steps ?e (graph_input question initial_store) of
          (cs, Chunk s) \<Rightarrow> (\<forall>x\<in>set cs. \<not> stops_loop x) \<and> is_final_answer (last (msgs (vals s)))
        | _ \<Rightarrow> False"
    by code_simp
  with sp obtain s where r: "r = Chunk s" and nstop: "\<forall>x\<in>set cs. \<not> stops_loop x"
    and fin: "is_final_answer (last (msgs (vals s)))"
    by (auto split: chunk.splits)
  from sp r have sp': "stream_prefix max_steps ?e (graph_input question initial_store) = (cs, Chunk s)"
    by simp
  show ?thesis
    using tenth_execution_answer_dropped [OF sp' nstop] sp' nstop fin by blast
qed

text \<open>C12. When the model call of \<^verbatim>\<open>call_get_schema\<close> fails, the session ends with
  the fallback's schema dump shown as the answer: for every database and question, a
  model that raises on the schema call gets the text \<open>Schema information: ...\<close> of the
  first three tables shown after two node executions, unless that text happens to
  contain \<^verbatim>\<open>Available tables:\<close>.\<close>

theorem schema_fallback_shown_as_answer:
  assumes fail: "\<forall>ms. \<exists>ex. llm e ms [tool_name SchemaTool] = Inl ex"
    and avail: "\<not> sublist ''Available tables:''
                 (''Schema information: '' @ get_table_info_no_throw (db e) (take 3 (usable_tables (db e))))"
  shows "ask e q d =
           (exit_ui (Found (''Schema information: '' @
                            get_table_info_no_throw (db e) (take 3 (usable_tables (db e))))),
            snd (ask e q d))
         \<and> step (snd (ask e q d)) = 2"
proof -
  define t where "t = ''Schema information: '' @ get_table_info_no_throw (db e) (take 3 (usable_tables (db e)))"
  define lt where "lt = list_tables_text (db e)"
  define ms1 where "ms1 = [HumanMessage (Some 0) q, AIMessage (Some 1) [] [list_tables_call],
                           ToolMessage (Some 2) lt ''abc123'', AIMessage (Some 3) (''Available tables: '' @ lt) []]"
  let ?s1 = "\<lparr>pos = Some CallGetSchema, vals = \<lparr>msgs = ms1, fresh = 4, store = d\<rparr>, step = 1\<rparr>"
  define s2 where "s2 = \<lparr>pos = Some GetSchema, vals = \<lparr>msgs = ms1 @ [AIMessage (Some 4) t []], fresh = 5,
                         store = d\<rparr>, step = 2\<rparr>"
  have g0: "gnext e (graph_input q d) = Chunk ?s1"
    unfolding ms1_def lt_def by (rule gnext_list_tables_step)
  obtain ex where ex: "llm e ms1 [tool_name SchemaTool] = Inl ex" using fail by blast
  have wf1: "ids_wf 4 ms1" by (simp add: ids_wf_def ms1_def)
  have g1: "gnext e ?s1 = Chunk s2"
    using gnext_call_get_schema_fallback_step [OF ex wf1, of d 1] by (simp add: s2_def t_def)
  have nf1: "\<not> is_final_answer (last ms1)"
    using available_tables_not_answer [of "Some 3" lt "[]"] by (simp add: ms1_def)
  have fin: "is_final_answer (AIMessage (Some 4) t [])"
    using avail by (simp add: is_final_answer_def t_def)
  have "consume e max_steps 0 (graph_input q d) = consume e max_steps (Suc 0) ?s1"
    using g0 by (intro consume_continue) (simp_all add: max_steps_def graph_input_eq is_final_answer_def)
  also have "\<dots> = (Found t, s2)"
    using consume_next_found [OF _ _ _ g1, where ms = ms1 and m = "AIMessage (Some 4) t []"] nf1 fin
    by (simp add: max_steps_def ms1_def s2_def)
  finally show ?thesis by (simp add: ask_def s2_def t_def)
qed

theorem schema_fallback_shown_as_answer_witness:
  "ask (scenario (failing_on [tool_name SchemaTool] (\<lambda>_. True) 1 invoice_query)) question initial_store =
     (exit_ui (Found (''Schema information: CREATE TABLE customers (id INTEGER)''
                      @ newline @ newline @ ''CREATE TABLE invoices (id INTEGER)'')),
      snd (ask (scenario (failing_on [tool_name SchemaTool] (\<lambda>_. True) 1 invoice_query)) question initial_store))
   \<and> step (snd (ask (scenario (failing_on [tool_name SchemaTool] (\<lambda>_. True) 1 invoice_query))
                    question initial_store)) = 2"
proof -
  let ?e = "scenario (failing_on [tool_name SchemaTool] (\<lambda>_. True) 1 invoice_query)"
  have f: "\<forall>ms. \<exists>ex. llm ?e ms [tool_name SchemaTool] = Inl ex"
    by (simp add: scenario_def failing_on_def)
  have t: "get_table_info_no_throw (db ?e) (take 3 (usable_tables (db ?e)))
             = ''CREATE TABLE customers (id INTEGER)'' @ newline @ newline @ ''CREATE TABLE invoices (id INTEGER)''"
    by code_simp
  have n: "\<not> sublist ''Available tables:''
             (''Schema information: '' @ get_table_info_no_throw (db ?e) (take 3 (usable_tables (db ?e))))"
    by code_simp
  show ?thesis using schema_fallback_shown_as_answer [OF f n, of question initial_store] t by simp
qed

text \<open>C13. When the reviewer's model call fails, its error message is shown as the
  answer: for every database and question, a model that asks for some schema, drafts a
  query call with a \<^verbatim>\<open>query\<close> argument, and raises \<open>ex\<close> on the review gets
  \<open>Error in query checking: ex\<close> shown after five node executions, before the query is run.\<close>

theorem check_error_shown_as_answer:
  assumes schema: "\<forall>ms. \<exists>c tcs. llm e ms [tool_name SchemaTool] = Inr (c, tcs) \<and> tcs \<noteq> []"
    and draft: "\<forall>ms. llm e (SystemMessage None (generate_query_system_prompt (dialect (db e))) # ms)
                       [tool_name QueryTool] = Inr (c, tc # tcs)"
    and arg: "map_of (tc_args tc) ''query'' = Some x"
    and review: "llm e [SystemMessage None (check_query_system_prompt (dialect (db e))), HumanMessage None x]
                   [tool_name QueryTool] = Inl ex"
    and avail: "\<not> sublist ''Available tables:'' (''Error in query checking: '' @ exc_str ex)"
  shows "ask e q d = (exit_ui (Found (''Error in query checking: '' @ exc_str ex)), snd (ask e q d))
         \<and> step (snd (ask e q d)) = 5"
proof -
  obtain ms k d3 where
    run: "consume e max_steps 0 (graph_input q d) =
            consume e max_steps (Suc (Suc (Suc 0)))
              \<lparr>pos = Some GenerateQuery, vals = \<lparr>msgs = ms, fresh = k, store = d3\<rparr>, step = 3\<rparr>"
    and wf: "ids_wf k ms" and ne: "ms \<noteq> []" and la: "\<not> is_ai (last ms)"
    using schema_phase [OF schema, of max_steps q d] by (auto simp: max_steps_def)
  define ms4 where "ms4 = ms @ [AIMessage (Some k) c (tc # tcs)]"
  let ?s4 = "\<lparr>pos = Some CheckQuery, vals = \<lparr>msgs = ms4, fresh = Suc k, store = d3\<rparr>, step = 4\<rparr>"
  define m where "m = with_id (Some (Suc k)) (check_query_error ex)"
  define s5 where "s5 = \<lparr>pos = Some RunQuery, vals = \<lparr>msgs = ms4 @ [m], fresh = Suc (Suc k), store = d3\<rparr>,
                         step = 5\<rparr>"
  have g3: "gnext e \<lparr>pos = Some GenerateQuery, vals = \<lparr>msgs = ms, fresh = k, store = d3\<rparr>, step = 3\<rparr>
              = Chunk ?s4"
    using gnext_generate_draft_step [of e ms c "tc # tcs" k d3 3] draft wf by (simp add: ms4_def)
  have wf4: "ids_wf (Suc k) ms4"
    using ids_wf_append_fresh [OF wf, of "[AIMessage None c (tc # tcs)]"] by (simp add: ms4_def)
  have g4: "gnext e ?s4 = Chunk s5"
    using gnext_check_error_step [of ms4 "Some k" c tc tcs x e ex "Suc k" d3 4] arg review wf4
    by (simp add: ms4_def s5_def m_def)
  have fin: "is_final_answer m"
    using avail by (simp add: m_def check_query_error_def is_final_answer_def)
  have "consume e max_steps (Suc (Suc (Suc 0)))
          \<lparr>pos = Some GenerateQuery, vals = \<lparr>msgs = ms, fresh = k, store = d3\<rparr>, step = 3\<rparr>
        = consume e max_steps (Suc (Suc (Suc (Suc 0)))) ?s4"
    using g3 ne la by (intro consume_continue) (simp_all add: max_steps_def not_ai_not_answer)
  also have "\<dots> = (Found (msg_content m), s5)"
    using consume_next_found [OF _ _ _ g4, where ms = ms4 and m = m] fin
    by (simp add: max_steps_def ms4_def s5_def is_final_answer_def)
  finally show ?thesis using run
    by (simp add: ask_def s5_def m_def check_query_error_def)
qed

theorem check_error_shown_as_answer_witness:
  "ask (scenario reviewer_down_llm) question initial_store =
     (exit_ui (Found ''Error in query checking: Rate limit reached''),
      snd (ask (scenario reviewer_down_llm) question initial_store))
   \<and> step (snd (ask (scenario reviewer_down_llm) question initial_store)) = 5"
proof -
  let ?e = "scenario reviewer_down_llm"
  have sc: "\<forall>ms. \<exists>c tcs. llm ?e ms [tool_name SchemaTool] = Inr (c, tcs) \<and> tcs \<noteq> []"
    by (simp add: scenario_def reviewer_down_llm_def)
  have ne: "generate_query_system_prompt ''postgresql'' \<noteq> check_query_system_prompt ''postgresql''"
    by code_simp
  have dr: "\<forall>ms. llm ?e (SystemMessage None (generate_query_system_prompt (dialect (db ?e))) # ms)
                  [tool_name QueryTool] = Inr ([], query_call ''call_draft'' invoice_query # [])"
    using ne by (simp add: scenario_def reviewer_down_llm_def example_db_def)
  have ar: "map_of (tc_args (query_call ''call_draft'' invoice_query)) ''query'' = Some invoice_query"
    by (simp add: query_call_def)
  have rv: "llm ?e [SystemMessage None (check_query_system_prompt (dialect (db ?e))), HumanMessage None invoice_query]
              [tool_name QueryTool] = Inl (APIError ''Rate limit reached'')"
    by (simp add: scenario_def reviewer_down_llm_def example_db_def)
  have tx: "\<not> sublist ''Available tables:'' (''Error in query checking: '' @ exc_str (APIError ''Rate limit reached''))"
    by code_simp
  show ?thesis using check_error_shown_as_answer [OF sc dr ar rv tx, of question initial_store] by simp
qed

text \<open>C14. When both model calls of \<^verbatim>\<open>generate_query\<close> fail, the exception escapes the
  graph and the page shows an error with its traceback: for every database and
  question, a model that asks for some schema and raises on the bound generation call
  and then \<open>ex\<close> on the unguarded fallback call makes the handler crash with \<open>ex\<close> in the
  chunk before \<^verbatim>\<open>generate_query\<close>, after three node executions.\<close>

theorem generation_failure_crashes:
  assumes schema: "\<forall>ms. \<exists>c tcs. llm e ms [tool_name SchemaTool] = Inr (c, tcs) \<and> tcs \<noteq> []"
    and bound: "\<forall>ms. \<exists>ex1. llm e (SystemMessage None (generate_query_system_prompt (dialect (db e))) # ms)
                             [tool_name QueryTool] = Inl ex1"
    and unbound: "\<forall>ms. llm e (SystemMessage None (generate_query_system_prompt (dialect (db e))
                                                @ generate_query_fallback_suffix) # ms) [] = Inl ex"
  shows "ask e q d = (exit_ui (Crashed ex), snd (ask e q d)) \<and> step (snd (ask e q d)) = 3"
proof -
  obtain ms k d3 where
    run: "consume e max_steps 0 (graph_input q d) =
            consume e max_steps (Suc (Suc (Suc 0)))
              \<lparr>pos = Some GenerateQuery, vals = \<lparr>msgs = ms, fresh = k, store = d3\<rparr>, step = 3\<rparr>"
    and "ids_wf k ms" and ne: "ms \<noteq> []" and la: "\<not> is_ai (last ms)"
    using schema_phase [OF schema, of max_steps q d] by (auto simp: max_steps_def)
  have g3: "gnext e \<lparr>pos = Some GenerateQuery, vals = \<lparr>msgs = ms, fresh = k, store = d3\<rparr>, step = 3\<rparr> = Raised ex"
    using bound unbound by (intro gnext_generate_raises) simp_all
  have "consume e max_steps (Suc (Suc (Suc 0)))
          \<lparr>pos = Some GenerateQuery, vals = \<lparr>msgs = ms, fresh = k, store = d3\<rparr>, step = 3\<rparr>
        = (Crashed ex, \<lparr>pos = Some GenerateQuery, vals = \<lparr>msgs = ms, fresh = k, store = d3\<rparr>, step = 3\<rparr>)"
    using g3 ne la by (intro consume_raised) (simp_all add: max_steps_def not_ai_not_answer)
  with run show ?thesis by (simp add: ask_def)
qed

theorem generation_failure_crashes_witness:
  "ask (scenario (\<lambda>ms tools. if tools = [tool_name SchemaTool] then Inr ([], [schema_call])
                             else Inl (APIError ''Rate limit reached''))) question initial_store =
     (exit_ui (Crashed (APIError ''Rate limit reached'')),
      snd (ask (scenario (\<lambda>ms tools. if tools = [tool_name SchemaTool] then Inr ([], [schema_call])
                                    else Inl (APIError ''Rate limit reached''))) question initial_store))
   \<and> step (snd (ask (scenario (\<lambda>ms tools. if tools = [tool_name SchemaTool] then Inr ([], [schema_call])
                                          else Inl (APIError ''Rate limit reached'')))
                    question initial_store)) = 3"
proof -
  let ?e = "scenario (\<lambda>ms tools. if tools = [tool_name SchemaTool] then Inr ([], [schema_call])
                                else Inl (APIError ''Rate limit reached''))"
  have sc: "\<forall>ms. \<exists>c tcs. llm ?e ms [tool_name SchemaTool] = Inr (c, tcs) \<and> tcs \<noteq> []"
    by (simp add: scenario_def)
  have b: "\<forall>ms. \<exists>ex1. llm ?e (SystemMessage None (generate_query_system_prompt (dialect (db ?e))) # ms)
                        [tool_name QueryTool] = Inl ex1"
    by (simp add: scenario_def)
  have u: "\<forall>ms. llm ?e (SystemMessage None (generate_query_system_prompt (dialect (db ?e))
                                           @ generate_query_fallback_suffix) # ms) []
                = Inl (APIError ''Rate limit reached'')"
    by (simp add: scenario_def)
  show ?thesis using generation_failure_crashes [OF sc b u, of question initial_store] by simp
qed

text \<open>C17. \<^verbatim>\<open>run_query\<close> hands the query text of the reviewed call to the database
  unchanged (no statement guard, no added \<^verbatim>\<open>LIMIT\<close>): when the database returns rows,
  the tool message answering the call prints every one of them, and the store the
  statement committed is kept.\<close>

theorem run_query_executes_verbatim:
  assumes "ms \<noteq> []" and "last ms = AIMessage i c [query_call j q]"
    and "db_execute (db e) d q = Inr (rows, d')" and "rows \<noteq> []"
  shows "run_query e d ms
           = Inr ([ToolMessage None (repr_rows (map (map (truncate_val max_string_length)) rows)) j], d')"
proof -
  have "run_no_throw (db e) d q = (repr_rows (map (map (truncate_val max_string_length)) rows), d')"
    using assms(3,4) by (rule run_no_throw_all_rows)
  with assms(1,2) show ?thesis
    by (simp add: run_query_def tool_node_def run_tool_call_def query_call_def)
qed

theorem run_query_executes_verbatim_witness:
  "[AIMessage (Some 6) '''' [query_call ''call_checked'' invoice_query]] \<noteq> []
   \<and> db_execute (db (scenario (stub_llm 1 invoice_query))) initial_store invoice_query
       = Inr (map (\<lambda>i. [SqlInt i]) [1..7], initial_store)
   \<and> run_query (scenario (stub_llm 1 invoice_query)) initial_store
       [AIMessage (Some 6) '''' [query_call ''call_checked'' invoice_query]]
     = Inr ([ToolMessage None ''[(1,), (2,), (3,), (4,), (5,), (6,), (7,)]'' ''call_checked''], initial_store)"
proof -
  let ?e = "scenario (stub_llm 1 invoice_query)"
  let ?ms = "[AIMessage (Some 6) '''' [query_call ''call_checked'' invoice_query]]"
  have h1: "?ms \<noteq> []" by simp
  have h2: "last ?ms = AIMessage (Some 6) '''' [query_call ''call_checked'' invoice_query]" by simp
  have h3: "db_execute (db ?e) initial_store invoice_query = Inr (map (\<lambda>i. [SqlInt i]) [1..7], initial_store)"
    by code_simp
  have h4: "map (\<lambda>i. [SqlInt i]) [1..7] \<noteq> []" by code_simp
  have "repr_rows (map (map (truncate_val max_string_length)) (map (\<lambda>i. [SqlInt i]) [1..7]))
          = ''[(1,), (2,), (3,), (4,), (5,), (6,), (7,)]''"
    by code_simp
  with run_query_executes_verbatim [OF h1 h2 h3 h4] h1 h3 show ?thesis by simp
qed


text \<open>C23. Liveness of the question handler: for every database and every question,
  a model that asks for some schema with a tool call and then answers with a final text
  \<open>a\<close> (non-empty, no tool call, not containing \<^verbatim>\<open>Available tables:\<close>) gets \<open>a\<close> shown
  as the answer, after four node executions (\<^verbatim>\<open>list_tables\<close>, \<^verbatim>\<open>call_get_schema\<close>,
  \<^verbatim>\<open>get_schema\<close>, \<^verbatim>\<open>generate_query\<close>) and well within the limit of ten.\<close>

theorem direct_answer_shown:
  assumes schema: "\<forall>ms. \<exists>c tcs. llm e ms [tool_name SchemaTool] = Inr (c, tcs) \<and> tcs \<noteq> []"
    and answer: "\<forall>ms. llm e ms [tool_name QueryTool] = Inr (a, [])"
    and final: "a \<noteq> []" "\<not> sublist ''Available tables:'' a"
  shows "ask e q d = (exit_ui (Found a), snd (ask e q d)) \<and> step (snd (ask e q d)) = 4"
proof -
  obtain s where "consume e max_steps 0 (graph_input q d) = (Found a, s)" and "step s = 4"
    using direct_answer_run [OF schema answer final] by blast
  then show ?thesis by (simp add: ask_def)
qed

theorem direct_answer_shown_witness:
  "ask (scenario (direct_llm ''There are 7 invoices.'')) question initial_store =
     (exit_ui (Found ''There are 7 invoices.''),
      snd (ask (scenario (direct_llm ''There are 7 invoices.'')) question initial_store)) \<and>
   step (snd (ask (scenario (direct_llm ''There are 7 invoices.'')) question initial_store)) = 4"
proof -
  have "\<not> sublist ''Available tables:'' ''There are 7 invoices.''" by code_simp
  then show ?thesis
    using direct_answer_shown [of "scenario (direct_llm ''There are 7 invoices.'')"
                                  "''There are 7 invoices.''" question initial_store]
    by (simp add: scenario_def direct_llm_def)
qed

end
